theory Spec2Isabelle
  imports Main
begin

section \<open>Python values\<close>

text \<open>
  A Python \<open>str\<close> is a sequence of Unicode code points, and \<open>len\<close> counts code points.
  The model is a list of code points, so that \<open>length\<close> is Python's \<open>len\<close>. ASCII
  literals are written with \<open>asc\<close>; other characters by their code point
  (9733 is the black star, 10 is the line feed, 13 the carriage return).
\<close>

type_synonym ustr = "nat list"

definition asc :: "string \<Rightarrow> ustr" where
  "asc s = map of_char s"

text \<open>The exceptions the four modules raise, catch or let through.\<close>

datatype exn =
    RetryAfter nat          \<comment> \<open>aiogram; carries \<open>timeout\<close>; a \<open>TelegramAPIError\<close>\<close>
  | ChatNotFound            \<comment> \<open>aiogram; a \<open>TelegramAPIError\<close>\<close>
  | NetworkError            \<comment> \<open>aiogram; a \<open>TelegramAPIError\<close>\<close>
  | TelegramAPIError        \<comment> \<open>any other error of the aiogram hierarchy\<close>
  | ContentTooLargeError    \<comment> \<open>subclass of \<open>TelegramPosterError\<close>\<close>
  | VideoSizeExceededError  \<comment> \<open>subclass of \<open>VideoDownloadError\<close>\<close>
  | VideoDownloadError
  | DownloadError           \<comment> \<open>yt-dlp\<close>
  | VKParserError
  | FileNotFoundError
  | ValueError
  | AttributeError
  | KeyError
  | UnboundLocalError
  | OSError
  | OtherException          \<comment> \<open>any \<open>Exception\<close> outside the classes above\<close>

fun is_TelegramAPIError :: "exn \<Rightarrow> bool" where
  "is_TelegramAPIError (RetryAfter t) = True"
| "is_TelegramAPIError ChatNotFound = True"
| "is_TelegramAPIError NetworkError = True"
| "is_TelegramAPIError TelegramAPIError = True"
| "is_TelegramAPIError e = False"

fun is_TelegramPosterError :: "exn \<Rightarrow> bool" where
  "is_TelegramPosterError ContentTooLargeError = True"
| "is_TelegramPosterError e = False"

fun is_VideoDownloadError :: "exn \<Rightarrow> bool" where
  "is_VideoDownloadError VideoSizeExceededError = True"
| "is_VideoDownloadError VideoDownloadError = True"
| "is_VideoDownloadError e = False"

text \<open>
  A dictionary entry read with \<open>d.get(k, default)\<close> or \<open>d[k]\<close>: the key may be missing,
  or present with the value \<open>None\<close> (what \<open>_enrich_video_data\<close> stores for a field the
  remote answer lacks), or present with a value.
\<close>

datatype 'a pyval = Missing | PyNone | Val 'a

section \<open>config.py\<close>

record config =
  CHANNEL_IDS :: "ustr list"
  MAX_FILE_SIZE_MB :: nat
  DELETE_LOCAL_COPY :: bool

section \<open>The world the application acts on\<close>

datatype video_arg =
    InputFile ustr    \<comment> \<open>the opened file at this path, as \<open>_direct_upload\<close> sends it\<close>
  | FileName ustr     \<comment> \<open>the bare file name, as \<open>_stream_upload\<close> sends it\<close>

datatype api_call =
    SendMessage ustr ustr            \<comment> \<open>\<open>bot.send_message\<close>: chat id, text\<close>
  | SendVideo ustr video_arg ustr    \<comment> \<open>\<open>bot.send_video\<close>: chat id, video, caption\<close>

datatype event =
    Fetch ustr ustr     \<comment> \<open>yt-dlp run by \<open>download\<close>: url, file name without extension\<close>
  | Api api_call        \<comment> \<open>a request to the Telegram API\<close>
  | Sleep nat           \<comment> \<open>\<open>asyncio.sleep\<close>, in seconds\<close>
  | Unlink ustr         \<comment> \<open>a file removed from the download directory\<close>

text \<open>
  The state: the in-memory set of \<open>ApplicationState\<close>, the contents of
  \<open>PROCESSED_VIDEOS_FILE\<close> (\<open>None\<close> while the file does not exist), the regular files of
  the download directory with their sizes in bytes, the running flag, and the calls made so
  far to the outside, oldest first.
\<close>

record world =
  processed_videos :: "ustr set"
  ledger_file :: "ustr option"
  download_dir :: "(ustr \<times> nat) list"
  is_running :: bool
  trace :: "event list"

text \<open>A candidate as \<open>search_videos\<close> returns it.\<close>

record datetime =
  year :: nat
  month :: nat
  day :: nat
  hour :: nat
  minute :: nat

record video =
  owner_id :: int
  ident :: int
  url :: ustr
  title :: "ustr pyval"
  description :: "ustr pyval"
  views :: "int pyval"
  date :: "datetime pyval"

text \<open>
  How appending a line to the ledger file can fail: \<open>open\<close> raises and the file is as it
  was; or the file is open, hence created when it was missing, and the write or the close
  raises when only so many characters of the line have reached the file.
\<close>

datatype io_failure =
    OpenFailed exn
  | WriteFailed exn nat

text \<open>
  What the program cannot decide itself: the answer of the Telegram API to a request (an
  exception or the id of the message sent), which may depend on everything that happened
  before; what yt-dlp writes into the download directory and returns; the search result; and
  whether appending to, and reading, the ledger file fails.
\<close>

record env =
  cfg :: config
  bot :: "event list \<Rightarrow> api_call \<Rightarrow> exn + nat"
  ydl :: "event list \<Rightarrow> ustr \<Rightarrow> ustr \<Rightarrow> (ustr \<times> nat) list \<times> (exn + ustr)"
  search_videos :: "exn + video list"
  ledger_append :: "ustr option \<Rightarrow> ustr \<Rightarrow> io_failure option"
  ledger_read :: "ustr \<Rightarrow> exn option"

section \<open>main.py: ApplicationState\<close>

text \<open>
  \<open>str.splitlines\<close>: a line ends at each of the line boundaries of Python (line feed,
  carriage return, the pair of both, vertical tab, form feed, the file, group and record
  separators, next line, line separator, paragraph separator); the boundary is dropped and
  a last line without one is kept when it is not empty. The flag says that the character
  before was a carriage return, whose line feed belongs to the same boundary.
\<close>

definition is_linebreak :: "nat \<Rightarrow> bool" where
  "is_linebreak c \<longleftrightarrow> c \<in> {10, 11, 12, 13, 28, 29, 30, 133, 8232, 8233}"

fun splitlines_from :: "bool \<Rightarrow> ustr \<Rightarrow> ustr \<Rightarrow> ustr list" where
  "splitlines_from cr cur [] = (if cur = [] then [] else [cur])"
| "splitlines_from cr cur (c # cs) =
     (if cr \<and> c = 10 then splitlines_from False cur cs
      else if is_linebreak c then cur # splitlines_from (c = 13) [] cs
      else splitlines_from False (cur @ [c]) cs)"

definition splitlines :: "ustr \<Rightarrow> ustr list" where
  "splitlines s = splitlines_from False [] s"

text \<open>
  \<open>Path.read_text\<close> opens the file in text mode with universal newlines: a carriage return,
  alone or followed by a line feed, is read as one line feed.
\<close>

fun universal_newlines :: "ustr \<Rightarrow> ustr" where
  "universal_newlines [] = []"
| "universal_newlines [c] = (if c = 13 then [10] else [c])"
| "universal_newlines (c # d # cs) =
     (if c = 13 \<and> d = 10 then 10 # universal_newlines cs
      else if c = 13 then 10 # universal_newlines (d # cs)
      else c # universal_newlines (d # cs))"

text \<open>
  \<open>load_processed_videos\<close>: nothing happens when the file does not exist; a read error is
  logged and the set is left as it was.
\<close>

definition load_processed_videos :: "env \<Rightarrow> world \<Rightarrow> world" where
  "load_processed_videos E w =
     (case ledger_file w of
        None \<Rightarrow> w
      | Some content \<Rightarrow>
          (case ledger_read E content of
             Some e \<Rightarrow> w
           | None \<Rightarrow> w\<lparr>processed_videos := set (splitlines (universal_newlines content))\<rparr>))"

text \<open>
  The body of the \<open>try\<close> of \<open>save_processed_video\<close>: open for append and write the line
  (the file is created when missing), then add to the set. An exception of \<open>open\<close>, of
  the write or of the close leaves the block before the \<open>add\<close>; after \<open>open\<close> has
  succeeded the file exists and holds the part of the line written so far.
\<close>

definition save_try :: "env \<Rightarrow> world \<Rightarrow> ustr \<Rightarrow> (exn + unit) \<times> world" where
  "save_try E w video_id =
     (case ledger_append E (ledger_file w) video_id of
        Some (OpenFailed e) \<Rightarrow> (Inl e, w)
      | Some (WriteFailed e n) \<Rightarrow>
          (Inl e,
           w\<lparr>ledger_file :=
               Some ((case ledger_file w of None \<Rightarrow> [] | Some content \<Rightarrow> content)
                      @ take n (video_id @ [10]))\<rparr>)
      | None \<Rightarrow>
          (let w1 = w\<lparr>ledger_file :=
                 Some ((case ledger_file w of None \<Rightarrow> [] | Some content \<Rightarrow> content)
                        @ video_id @ [10])\<rparr>
           in (Inr (), w1\<lparr>processed_videos := insert video_id (processed_videos w1)\<rparr>)))"

text \<open>\<open>except Exception\<close>: the error is logged, nothing is raised again.\<close>

definition save_processed_video :: "env \<Rightarrow> world \<Rightarrow> ustr \<Rightarrow> (exn + unit) \<times> world" where
  "save_processed_video E w video_id =
     (case save_try E w video_id of
        (Inl e, w1) \<Rightarrow> (Inr (), w1)
      | (Inr u, w1) \<Rightarrow> (Inr (), w1))"

section \<open>video\_downloader.py\<close>

text \<open>
  The file system of the model is the download directory: a list of path and size, one entry
  for each regular file. The directory is writable (\<open>_prepare_directory\<close> checks it when
  the downloader is built), so removing a file that exists succeeds.
\<close>

definition exists :: "world \<Rightarrow> ustr \<Rightarrow> bool" where
  "exists w p \<longleftrightarrow> map_of (download_dir w) p \<noteq> None"

definition unlink :: "ustr \<Rightarrow> world \<Rightarrow> world" where
  "unlink p w =
     w\<lparr>download_dir := filter (\<lambda>(n, s). n \<noteq> p) (download_dir w),
       trace := trace w @ [Unlink p]\<rparr>"

definition write_files :: "(ustr \<times> nat) list \<Rightarrow> (ustr \<times> nat) list \<Rightarrow> (ustr \<times> nat) list" where
  "write_files new old = new @ filter (\<lambda>(n, s). n \<notin> fst ` set new) old"

text \<open>
  The \<open>try\<close> block of \<open>download\<close>: run yt-dlp, then compare the size of the file it names
  with the limit. The second component is the variable \<open>final_path\<close> at the moment the
  block is left (\<open>None\<close> until yt-dlp has returned).
\<close>

definition download_try ::
  "env \<Rightarrow> world \<Rightarrow> ustr \<Rightarrow> ustr \<Rightarrow> ((exn + ustr) \<times> ustr option) \<times> world" where
  "download_try E w url' filename =
     (case ydl E (trace w) url' filename of
        (written, r) \<Rightarrow>
          (let w1 = w\<lparr>download_dir := write_files written (download_dir w),
                      trace := trace w @ [Fetch url' filename]\<rparr>
           in case r of
                Inl e \<Rightarrow> ((Inl e, None), w1)
              | Inr final_path \<Rightarrow>
                  (case map_of (download_dir w1) final_path of
                     None \<Rightarrow> ((Inl FileNotFoundError, Some final_path), w1)
                   | Some size' \<Rightarrow>
                       if size' > MAX_FILE_SIZE_MB (cfg E) * 1024 * 1024
                       then ((Inl VideoSizeExceededError, Some final_path), w1)
                       else ((Inr final_path, Some final_path), w1))))"

text \<open>
  The handlers: a \<open>DownloadError\<close> of yt-dlp removes the file \<open>final_path\<close> names, when
  it is set and exists; every other exception, the size violation included, is only wrapped.
\<close>

definition download :: "env \<Rightarrow> world \<Rightarrow> ustr \<Rightarrow> ustr \<Rightarrow> (exn + ustr) \<times> world" where
  "download E w url' filename =
     (case download_try E w url' filename of
        ((Inr p, fp), w1) \<Rightarrow> (Inr p, w1)
      | ((Inl e, fp), w1) \<Rightarrow>
          if e = DownloadError then
            (case fp of
               None \<Rightarrow> (Inl VideoDownloadError, w1)
             | Some p \<Rightarrow> (Inl VideoDownloadError, if exists w1 p then unlink p w1 else w1))
          else (Inl VideoDownloadError, w1))"

text \<open>\<open>cleanup\<close>: with the deletion flag, every file of the download directory is removed.\<close>

definition cleanup :: "env \<Rightarrow> world \<Rightarrow> world" where
  "cleanup E w =
     (if DELETE_LOCAL_COPY (cfg E)
      then fold unlink (remdups (map fst (download_dir w))) w
      else w)"

section \<open>telegram\_poster.py\<close>

definition MAX_CAPTION_LENGTH :: int where
  "MAX_CAPTION_LENGTH = 1024"

definition CHUNK_SIZE :: nat where
  "CHUNK_SIZE = 10 * 1024 * 1024"

definition SUPPORTED_VIDEO_FORMATS :: "ustr set" where
  "SUPPORTED_VIDEO_FORMATS = {asc ''mp4'', asc ''mov'', asc ''mkv''}"

text \<open>The slice \<open>text[:k]\<close>: a negative \<open>k\<close> counts from the end.\<close>

definition slice_to :: "ustr \<Rightarrow> int \<Rightarrow> ustr" where
  "slice_to text k =
     (if 0 \<le> k then take (nat k) text else take (nat (int (length text) + k)) text)"

definition truncate_text :: "ustr \<Rightarrow> int \<Rightarrow> ustr" where
  "truncate_text text max_length =
     (if int (length text) > max_length
      then slice_to text (max_length - 3) @ asc ''...''
      else text)"

text \<open>
  \<open>Path.name\<close> is the part after the last slash; \<open>Path.suffix\<close> starts at the last dot of
  the name, when that dot is neither its first nor its last character. \<open>str.lower\<close> takes
  the letters A to Z to a to z, the Kelvin sign 8490 to the letter k and the dotted capital
  I 304 to the letter i and the combining dot 775; every other code point goes to one code
  point outside ASCII, which the model leaves as it is.
\<close>

definition path_name :: "ustr \<Rightarrow> ustr" where
  "path_name p = rev (takeWhile (\<lambda>c. c \<noteq> 47) (rev p))"

definition path_suffix :: "ustr \<Rightarrow> ustr" where
  "path_suffix p =
     (let name = path_name p in
      if 46 \<notin> set name then []
      else (let i = length name - 1 - length (takeWhile (\<lambda>c. c \<noteq> 46) (rev name))
            in if 0 < i \<and> i < length name - 1 then drop i name else []))"

definition lower_char :: "nat \<Rightarrow> ustr" where
  "lower_char c =
     (if 65 \<le> c \<and> c \<le> 90 then [c + 32]
      else if c = 8490 then [107]
      else if c = 304 then [105, 775]
      else [c])"

definition lower :: "ustr \<Rightarrow> ustr" where
  "lower s = concat (map lower_char s)"

text \<open>
  \<open>_validate_video\<close>. The size in megabytes is a float quotient by a power of two, so the
  comparison is the one on bytes.
\<close>

definition validate_video :: "env \<Rightarrow> world \<Rightarrow> ustr \<Rightarrow> exn + unit" where
  "validate_video E w path =
     (case map_of (download_dir w) path of
        None \<Rightarrow> Inl FileNotFoundError
      | Some size' \<Rightarrow>
          if drop 1 (lower (path_suffix path)) \<notin> SUPPORTED_VIDEO_FORMATS then Inl ValueError
          else if size' > MAX_FILE_SIZE_MB (cfg E) * 1024 * 1024 then Inl ContentTooLargeError
          else Inr ())"

text \<open>A request to the API: the answer is the environment's, the request is recorded.\<close>

definition call_api :: "env \<Rightarrow> world \<Rightarrow> api_call \<Rightarrow> (exn + nat) \<times> world" where
  "call_api E w c = (bot E (trace w) c, w\<lparr>trace := trace w @ [Api c]\<rparr>)"

definition handle_retry :: "world \<Rightarrow> nat \<Rightarrow> world" where
  "handle_retry w retry_time = w\<lparr>trace := trace w @ [Sleep retry_time]\<rparr>"

text \<open>
  The inner loop of \<open>send_text\<close>, \<open>for attempt in range(retries)\<close>, with the number of
  attempts left. A success and a fatal error \<open>break\<close>; a rate limit sleeps and goes on; any
  other API error goes on at once; an exception of another class leaves \<open>send_text\<close>.
\<close>

fun send_text_attempts ::
  "env \<Rightarrow> ustr \<Rightarrow> ustr \<Rightarrow> nat \<Rightarrow> nat list \<Rightarrow> world \<Rightarrow> (exn + nat list) \<times> world" where
  "send_text_attempts E message channel 0 messages w = (Inr messages, w)"
| "send_text_attempts E message channel (Suc k) messages w =
     (case call_api E w (SendMessage channel (truncate_text message MAX_CAPTION_LENGTH)) of
        (Inr msg, w1) \<Rightarrow> (Inr (messages @ [msg]), w1)
      | (Inl e, w1) \<Rightarrow>
          (case e of
             RetryAfter t \<Rightarrow> send_text_attempts E message channel k messages (handle_retry w1 t)
           | _ \<Rightarrow>
               if e = ChatNotFound \<or> e = NetworkError then (Inr messages, w1)
               else if is_TelegramAPIError e
               then send_text_attempts E message channel k messages w1
               else (Inl e, w1)))"

fun send_text_channels ::
  "env \<Rightarrow> ustr \<Rightarrow> nat \<Rightarrow> ustr list \<Rightarrow> nat list \<Rightarrow> world \<Rightarrow> (exn + nat list) \<times> world" where
  "send_text_channels E message retries [] messages w = (Inr messages, w)"
| "send_text_channels E message retries (channel # channels) messages w =
     (case send_text_attempts E message channel retries messages w of
        (Inl e, w1) \<Rightarrow> (Inl e, w1)
      | (Inr messages1, w1) \<Rightarrow> send_text_channels E message retries channels messages1 w1)"

definition send_text ::
  "env \<Rightarrow> world \<Rightarrow> ustr \<Rightarrow> ustr list \<Rightarrow> nat \<Rightarrow> (exn + nat list) \<times> world" where
  "send_text E w message channels retries = send_text_channels E message retries channels [] w"

definition direct_upload :: "env \<Rightarrow> world \<Rightarrow> ustr \<Rightarrow> ustr \<Rightarrow> ustr \<Rightarrow> (exn + nat) \<times> world" where
  "direct_upload E w channel video_path caption =
     (if \<not> exists w video_path then (Inl FileNotFoundError, w)
      else call_api E w
             (SendVideo channel (InputFile video_path) (truncate_text caption MAX_CAPTION_LENGTH)))"

text \<open>
  \<open>_stream_upload\<close> reads the file in chunks, drops them, and sends the name of the file in
  place of its contents.
\<close>

definition stream_upload :: "env \<Rightarrow> world \<Rightarrow> ustr \<Rightarrow> ustr \<Rightarrow> ustr \<Rightarrow> (exn + nat) \<times> world" where
  "stream_upload E w channel video_path caption =
     (if \<not> exists w video_path then (Inl FileNotFoundError, w)
      else call_api E w
             (SendVideo channel (FileName (path_name video_path))
                (truncate_text caption MAX_CAPTION_LENGTH)))"

definition safe_delete :: "world \<Rightarrow> ustr \<Rightarrow> world" where
  "safe_delete w path = (if exists w path then unlink path w else w)"

text \<open>
  The \<open>try\<close> block of the loop of \<open>send_video\<close> up to the assignment of \<open>msg\<close>. The size
  is read only when \<open>stream_upload\<close> is set.
\<close>

definition send_video_try ::
  "env \<Rightarrow> world \<Rightarrow> ustr \<Rightarrow> ustr \<Rightarrow> ustr \<Rightarrow> bool \<Rightarrow> (exn + nat) \<times> world" where
  "send_video_try E w channel video_path caption stream =
     (if stream then
        (case map_of (download_dir w) video_path of
           None \<Rightarrow> (Inl FileNotFoundError, w)
         | Some size' \<Rightarrow>
             if size' > CHUNK_SIZE then stream_upload E w channel video_path caption
             else direct_upload E w channel video_path caption)
      else direct_upload E w channel video_path caption)"

text \<open>
  The loop over the channels. \<open>except Exception\<close> logs and goes to the next channel; after a
  success the file is removed when the deletion flag is set. The parameter \<open>retries\<close> of
  \<open>send_video\<close> is not read anywhere.
\<close>

fun send_video_channels ::
  "env \<Rightarrow> ustr \<Rightarrow> ustr \<Rightarrow> bool \<Rightarrow> ustr list \<Rightarrow> nat list \<Rightarrow> world \<Rightarrow> nat list \<times> world" where
  "send_video_channels E caption video_path stream [] messages w = (messages, w)"
| "send_video_channels E caption video_path stream (channel # channels) messages w =
     (case send_video_try E w channel video_path caption stream of
        (Inl e, w1) \<Rightarrow> send_video_channels E caption video_path stream channels messages w1
      | (Inr msg, w1) \<Rightarrow>
          send_video_channels E caption video_path stream channels (messages @ [msg])
            (if DELETE_LOCAL_COPY (cfg E) then safe_delete w1 video_path else w1))"

definition send_video ::
  "env \<Rightarrow> world \<Rightarrow> ustr \<Rightarrow> ustr \<Rightarrow> ustr list \<Rightarrow> nat \<Rightarrow> bool \<Rightarrow> (exn + nat list) \<times> world" where
  "send_video E w caption video_path channels retries stream =
     (case validate_video E w video_path of
        Inl e \<Rightarrow> (Inl e, w)
      | Inr u \<Rightarrow>
          (case send_video_channels E caption video_path stream channels [] w of
             (messages, w1) \<Rightarrow> (Inr messages, w1)))"

section \<open>main.py: Application\<close>

text \<open>The decimal text of an integer, as an f-string prints it.\<close>

fun str_nat :: "nat \<Rightarrow> ustr" where
  "str_nat n = (if n < 10 then [48 + n] else str_nat (n div 10) @ [48 + n mod 10])"

declare str_nat.simps [simp del]

definition str_int :: "int \<Rightarrow> ustr" where
  "str_int i = (if i < 0 then 45 # str_nat (nat (- i)) else str_nat (nat i))"

definition video_id_of :: "video \<Rightarrow> ustr" where
  "video_id_of v = str_int (owner_id v) @ asc ''_'' @ str_int (ident v)"

text \<open>\<open>strftime('%d.%m.%Y %H:%M')\<close>: two digits each, the year as the C library prints it.\<close>

definition pad2 :: "nat \<Rightarrow> ustr" where
  "pad2 n = (if n < 10 then 48 # str_nat n else str_nat n)"

definition strftime :: "datetime \<Rightarrow> ustr" where
  "strftime d =
     pad2 (day d) @ asc ''.'' @ pad2 (month d) @ asc ''.'' @ str_nat (year d) @ asc '' ''
       @ pad2 (hour d) @ asc '':'' @ pad2 (minute d)"

text \<open>\<open>s.replace(a, b)\<close> for one-character \<open>a\<close> and \<open>b\<close>.\<close>

definition replace :: "nat \<Rightarrow> nat \<Rightarrow> ustr \<Rightarrow> ustr" where
  "replace a b s = map (\<lambda>c. if c = a then b else c) s"

text \<open>
  \<open>_generate_caption\<close>. The default title is the Russian for "untitled"; the calendar and
  the eyes are the code points 128197 and 128064. A title or description that is \<open>None\<close>
  has no \<open>replace\<close>; a missing date has no entry to read.
\<close>

definition generate_caption :: "video \<Rightarrow> exn + ustr" where
  "generate_caption v =
     (case (case title v of
              Missing \<Rightarrow> Inr [1041, 1077, 1079, 32, 1085, 1072, 1079, 1074, 1072, 1085, 1080, 1103]
            | PyNone \<Rightarrow> Inl AttributeError
            | Val t \<Rightarrow> Inr t) of
        Inl e \<Rightarrow> Inl e
      | Inr t \<Rightarrow>
     (case (case description v of Missing \<Rightarrow> Inr [] | PyNone \<Rightarrow> Inl AttributeError | Val d \<Rightarrow> Inr d) of
        Inl e \<Rightarrow> Inl e
      | Inr d \<Rightarrow>
     (case (case date v of Missing \<Rightarrow> Inl KeyError | PyNone \<Rightarrow> Inl AttributeError
                         | Val dt \<Rightarrow> Inr (strftime dt)) of
        Inl e \<Rightarrow> Inl e
      | Inr date' \<Rightarrow>
          Inr (asc ''*'' @ replace 42 9733 t @ [42, 10, 10]
               @ replace 42 9733 d @ [10, 10]
               @ [128197, 32] @ date' @ [32, 124, 32, 128064, 32]
               @ (case views v of Missing \<Rightarrow> asc ''0'' | PyNone \<Rightarrow> asc ''None''
                                | Val n \<Rightarrow> str_int n)))))"

text \<open>
  \<open>_handle_download_failure\<close>: the notice is the Russian for "could not download the
  video" between asterisks, then the title and the url, each on its own line; it goes out
  through \<open>send_text\<close> with the default channels and retries. Every exception is logged.
\<close>

definition handle_download_failure :: "env \<Rightarrow> world \<Rightarrow> video \<Rightarrow> world" where
  "handle_download_failure E w v =
     (case title v of
        Missing \<Rightarrow> w
      | t \<Rightarrow>
          snd (send_text E w
                 ([42, 1053, 1077, 32, 1091, 1076, 1072, 1083, 1086, 1089, 1100, 32, 1079, 1072,
                   1075, 1088, 1091, 1079, 1080, 1090, 1100, 32, 1074, 1080, 1076, 1077, 1086,
                   42, 10]
                  @ (case t of Val s \<Rightarrow> s | _ \<Rightarrow> asc ''None'') @ [10] @ url v)
                 (CHANNEL_IDS (cfg E)) 3))"

text \<open>\<open>_handle_posting_failure\<close>: when the file still exists, \<open>cleanup\<close> runs.\<close>

definition handle_posting_failure :: "env \<Rightarrow> world \<Rightarrow> ustr \<Rightarrow> world" where
  "handle_posting_failure E w video_path = (if exists w video_path then cleanup E w else w)"

text \<open>
  The \<open>try\<close> block of \<open>_process_single_video\<close>: download, caption, \<open>send_video\<close> with the
  default channels and retries and with \<open>stream_upload\<close> set, then the ledger. What
  \<open>send_video\<close> returns is not read. The second component is the variable
  \<open>downloaded_path\<close> when the block is left.
\<close>

definition process_single_video_try ::
  "env \<Rightarrow> world \<Rightarrow> video \<Rightarrow> ustr \<Rightarrow> ((exn + unit) \<times> ustr option) \<times> world" where
  "process_single_video_try E w v video_id =
     (case download E w (url v) (asc ''video_'' @ video_id) of
        (Inl e, w1) \<Rightarrow> ((Inl e, None), w1)
      | (Inr downloaded_path, w1) \<Rightarrow>
          (case generate_caption v of
             Inl e \<Rightarrow> ((Inl e, Some downloaded_path), w1)
           | Inr caption \<Rightarrow>
               (case send_video E w1 caption downloaded_path (CHANNEL_IDS (cfg E)) 3 True of
                  (Inl e, w2) \<Rightarrow> ((Inl e, Some downloaded_path), w2)
                | (Inr messages, w2) \<Rightarrow>
                    (case save_processed_video E w2 video_id of
                       (r, w3) \<Rightarrow> ((r, Some downloaded_path), w3)))))"

text \<open>
  The handlers of \<open>_process_single_video\<close>: a download error sends the notice, a poster
  error cleans up; any other exception goes on to the caller.
\<close>

definition process_single_video :: "env \<Rightarrow> world \<Rightarrow> video \<Rightarrow> ustr \<Rightarrow> (exn + unit) \<times> world" where
  "process_single_video E w v video_id =
     (case process_single_video_try E w v video_id of
        ((Inr u, dp), w1) \<Rightarrow> (Inr (), w1)
      | ((Inl e, dp), w1) \<Rightarrow>
          if is_VideoDownloadError e then (Inr (), handle_download_failure E w1 v)
          else if is_TelegramPosterError e then
            (case dp of
               None \<Rightarrow> (Inl UnboundLocalError, w1)
             | Some downloaded_path \<Rightarrow> (Inr (), handle_posting_failure E w1 downloaded_path))
          else (Inl e, w1))"

text \<open>The loop of \<open>process_videos\<close> over the candidates; an exception ends it.\<close>

fun process_videos_loop :: "env \<Rightarrow> world \<Rightarrow> video list \<Rightarrow> (exn + unit) \<times> world" where
  "process_videos_loop E w [] = (Inr (), w)"
| "process_videos_loop E w (v # videos) =
     (if video_id_of v \<in> processed_videos w then process_videos_loop E w videos
      else
        (case process_single_video E w v (video_id_of v) of
           (Inl e, w1) \<Rightarrow> (Inl e, w1)
         | (Inr u, w1) \<Rightarrow> process_videos_loop E w1 videos))"

text \<open>
  \<open>process_videos\<close>, one sweep: nothing when the application is stopping; a failed search
  and an exception of the loop are logged.
\<close>

definition process_videos :: "env \<Rightarrow> world \<Rightarrow> world" where
  "process_videos E w =
     (if \<not> is_running w then w
      else
        (case search_videos E of
           Inl e \<Rightarrow> w
         | Inr videos \<Rightarrow> snd (process_videos_loop E w videos)))"

section \<open>Auxiliary notions and example worlds\<close>

text \<open>Recording a list of identifiers, one call of \<open>save_processed_video\<close> each.\<close>

definition record_all :: "env \<Rightarrow> world \<Rightarrow> ustr list \<Rightarrow> world" where
  "record_all E w ids = fold (\<lambda>i w'. snd (save_processed_video E w' i)) ids w"

text \<open>What the ledger file holds after that: every identifier followed by a line feed.\<close>

definition ledger_lines :: "ustr list \<Rightarrow> ustr" where
  "ledger_lines ids = concat (map (\<lambda>i. i @ [10]) ids)"

text \<open>
  \<open>grows P w w'\<close>: the state \<open>w'\<close> has the calls of \<open>w\<close> and after them only calls that
  satisfy \<open>P\<close>.
\<close>

definition grows :: "(event \<Rightarrow> bool) \<Rightarrow> world \<Rightarrow> world \<Rightarrow> bool" where
  "grows P w w' \<longleftrightarrow> (\<exists>new. trace w' = trace w @ new \<and> list_all P new)"

text \<open>
  The receipts of a run of calls made after the history \<open>h\<close>: the message ids of the
  requests the API answered with a message, in order.
\<close>

fun receipts :: "env \<Rightarrow> event list \<Rightarrow> event list \<Rightarrow> nat list" where
  "receipts E h [] = []"
| "receipts E h (e # es) =
     (case e of
        Api c \<Rightarrow> (case bot E h c of Inr m \<Rightarrow> [m] | Inl x \<Rightarrow> [])
      | _ \<Rightarrow> [])
     @ receipts E (h @ [e]) es"


definition upload_request :: "world \<Rightarrow> ustr \<Rightarrow> ustr \<Rightarrow> ustr \<Rightarrow> bool \<Rightarrow> api_call" where
  "upload_request w channel video_path caption stream =
     SendVideo channel
       (if stream \<and> (case map_of (download_dir w) video_path of
                        None \<Rightarrow> False | Some size' \<Rightarrow> size' > CHUNK_SIZE)
        then FileName (path_name video_path) else InputFile video_path)
       (truncate_text caption MAX_CAPTION_LENGTH)"

text \<open>
  An environment with one channel that no request reaches, a failing yt-dlp and a ledger
  file whose append raises after two characters; the same with a writable ledger; the identifier made of
  the letter a, a carriage return and the letter b; and the state of a fresh start.
\<close>

definition env_disk_full :: env where
  "env_disk_full =
     \<lparr>cfg = \<lparr>CHANNEL_IDS = [asc ''@a''], MAX_FILE_SIZE_MB = 50, DELETE_LOCAL_COPY = True\<rparr>,
      bot = (\<lambda>h c. Inl NetworkError),
      ydl = (\<lambda>h u f. ([], Inl DownloadError)),
      search_videos = Inr [],
      ledger_append = (\<lambda>f i. Some (WriteFailed OSError 2)),
      ledger_read = (\<lambda>c. None)\<rparr>"

definition env_disk_ok :: env where
  "env_disk_ok = env_disk_full\<lparr>ledger_append := (\<lambda>f i. None)\<rparr>"

definition a_cr_b :: ustr where
  "a_cr_b = [97, 13, 98]"

definition world0 :: world where
  "world0 = \<lparr>processed_videos = {}, ledger_file = None, download_dir = [], is_running = True,
             trace = []\<rparr>"

text \<open>
  The number of requests in a history; a file of five bytes; an environment whose API
  answers the first two requests with a rate limit of two seconds and every later one with
  the message 7, and one whose API answers every request with the message 7. In both,
  yt-dlp writes a file of five bytes with the extension mp4 and returns its path.
\<close>

definition requests :: "event list \<Rightarrow> nat" where
  "requests h = length (filter (\<lambda>e. case e of Api c \<Rightarrow> True | _ \<Rightarrow> False) h)"

definition video_1_2_mp4 :: ustr where
  "video_1_2_mp4 = asc ''downloads/video_1_2.mp4''"

definition world_one_file :: world where
  "world_one_file = world0\<lparr>download_dir := [(video_1_2_mp4, 5)]\<rparr>"

definition env_rate_limited :: env where
  "env_rate_limited =
     \<lparr>cfg = \<lparr>CHANNEL_IDS = [asc ''@a''], MAX_FILE_SIZE_MB = 50, DELETE_LOCAL_COPY = True\<rparr>,
      bot = (\<lambda>h c. if requests h < 2 then Inl (RetryAfter 2) else Inr 7),
      ydl = (\<lambda>h u f. ([(asc ''downloads/'' @ f @ asc ''.mp4'', 5)],
                       Inr (asc ''downloads/'' @ f @ asc ''.mp4''))),
      search_videos = Inr [],
      ledger_append = (\<lambda>f i. None),
      ledger_read = (\<lambda>c. None)\<rparr>"

definition env_all_ok :: env where
  "env_all_ok =
     env_rate_limited
       \<lparr>cfg := \<lparr>CHANNEL_IDS = [asc ''@a'', asc ''@b''], MAX_FILE_SIZE_MB = 50,
                DELETE_LOCAL_COPY = True\<rparr>,
        bot := (\<lambda>h c. Inr 7)\<rparr>"

text \<open>A candidate with asterisks in its title and description.\<close>

definition video_1_2 :: video where
  "video_1_2 =
     \<lparr>owner_id = 1, ident = 2, url = asc ''https://vk.com/video1_2'',
      title = Val (asc ''a*b''), description = Val (asc ''*''), views = Val 5,
      date = Val \<lparr>year = 2024, month = 1, day = 2, hour = 3, minute = 4\<rparr>\<rparr>"

text \<open>
  Another item's file, alone in the download directory; an environment with one channel
  that refuses every request while yt-dlp and the ledger file work; and one where yt-dlp
  writes a file of 80 megabytes against the limit of 50 and the channel accepts every
  request.
\<close>

definition video_3_4_mp4 :: ustr where
  "video_3_4_mp4 = asc ''downloads/video_3_4.mp4''"

definition world_other_file :: world where
  "world_other_file = world0\<lparr>download_dir := [(video_3_4_mp4, 6)]\<rparr>"

definition env_no_delivery :: env where
  "env_no_delivery = env_rate_limited\<lparr>bot := (\<lambda>h c. Inl NetworkError)\<rparr>"

definition env_oversize :: env where
  "env_oversize =
     env_rate_limited
       \<lparr>bot := (\<lambda>h c. Inr 7),
        ydl := (\<lambda>h u f. ([(asc ''downloads/'' @ f @ asc ''.mp4'', 80 * 1024 * 1024)],
                          Inr (asc ''downloads/'' @ f @ asc ''.mp4'')))\<rparr>"

text \<open>
  The chat a request goes to; and an environment with two channels where every request to
  the first raises an exception that is not an API error, as a timeout of the event loop
  is, and every other request is answered with the message 7.
\<close>

fun api_chat :: "api_call \<Rightarrow> ustr" where
  "api_chat (SendMessage channel text) = channel"
| "api_chat (SendVideo channel video caption) = channel"

definition env_a_raises :: env where
  "env_a_raises =
     env_all_ok\<lparr>bot := (\<lambda>h c. if api_chat c = asc ''@a'' then Inl OtherException else Inr 7)\<rparr>"

text \<open>A search that returns the candidate, and a state whose ledger already has it.\<close>

definition env_search :: env where
  "env_search = env_all_ok\<lparr>search_videos := Inr [video_1_2]\<rparr>"

definition world_seen :: world where
  "world_seen = world0\<lparr>processed_videos := {asc ''1_2''}\<rparr>"

text \<open>The caption of that candidate, and the notice about it.\<close>

definition caption_1_2 :: ustr where
  "caption_1_2 =
     [42, 97, 9733, 98, 42, 10, 10, 9733, 10, 10, 128197, 32] @ asc ''02.01.2024 03:04''
       @ [32, 124, 32, 128064, 32] @ asc ''5''"

definition notice_1_2 :: ustr where
  "notice_1_2 =
     [42, 1053, 1077, 32, 1091, 1076, 1072, 1083, 1086, 1089, 1100, 32, 1079, 1072,
      1075, 1088, 1091, 1079, 1080, 1090, 1100, 32, 1074, 1080, 1076, 1077, 1086, 42, 10]
     @ asc ''a*b'' @ [10] @ asc ''https://vk.com/video1_2''"

section \<open>The ledger\<close>

lemma save_processed_video_fst: "fst (save_processed_video E w i) = Inr ()"
  by (simp add: save_processed_video_def split: prod.splits sum.splits)

lemma save_processed_video_ok:
  "ledger_append E (ledger_file w) i = None \<Longrightarrow>
   snd (save_processed_video E w i) =
     w\<lparr>ledger_file := Some ((case ledger_file w of None \<Rightarrow> [] | Some c \<Rightarrow> c) @ i @ [10]),
       processed_videos := insert i (processed_videos w)\<rparr>"
  by (simp add: save_processed_video_def save_try_def)

lemma save_processed_video_fail:
  "ledger_append E (ledger_file w) i = Some x \<Longrightarrow>
   \<exists>f. snd (save_processed_video E w i) = w\<lparr>ledger_file := f\<rparr>"
proof (cases x)
  case (OpenFailed e)
  assume "ledger_append E (ledger_file w) i = Some x"
  with OpenFailed have "snd (save_processed_video E w i) = w\<lparr>ledger_file := ledger_file w\<rparr>"
    by (simp add: save_processed_video_def save_try_def)
  then show ?thesis ..
next
  case (WriteFailed e n)
  assume "ledger_append E (ledger_file w) i = Some x"
  with WriteFailed have "snd (save_processed_video E w i) =
      w\<lparr>ledger_file := Some ((case ledger_file w of None \<Rightarrow> [] | Some c \<Rightarrow> c)
                               @ take n (i @ [10]))\<rparr>"
    by (simp add: save_processed_video_def save_try_def)
  then show ?thesis ..
qed

text \<open>
  C4, as the code has it: \<open>save_processed_video\<close> never raises. When the append succeeds,
  the file ends with the identifier and a line feed and the identifier is in the set. When
  the append raises, the identifier is not inserted: the in-memory set is the one before
  the call.
\<close>

theorem save_processed_video_commit:
  "fst (save_processed_video E w i) = Inr () \<and>
   (ledger_append E (ledger_file w) i = None \<longrightarrow>
      ledger_file (snd (save_processed_video E w i)) =
        Some ((case ledger_file w of None \<Rightarrow> [] | Some c \<Rightarrow> c) @ i @ [10]) \<and>
      processed_videos (snd (save_processed_video E w i)) = insert i (processed_videos w)) \<and>
   (ledger_append E (ledger_file w) i \<noteq> None \<longrightarrow>
      processed_videos (snd (save_processed_video E w i)) = processed_videos w)"
proof (intro conjI impI)
  show "fst (save_processed_video E w i) = Inr ()"
    by (rule save_processed_video_fst)
next
  assume "ledger_append E (ledger_file w) i = None"
  then show "ledger_file (snd (save_processed_video E w i)) =
        Some ((case ledger_file w of None \<Rightarrow> [] | Some c \<Rightarrow> c) @ i @ [10])"
    and "processed_videos (snd (save_processed_video E w i)) = insert i (processed_videos w)"
    by (simp_all add: save_processed_video_ok)
next
  assume "ledger_append E (ledger_file w) i \<noteq> None"
  then obtain x where "ledger_append E (ledger_file w) i = Some x" by blast
  from save_processed_video_fail [OF this] obtain f where
    "snd (save_processed_video E w i) = w\<lparr>ledger_file := f\<rparr>" ..
  then show "processed_videos (snd (save_processed_video E w i)) = processed_videos w"
    by simp
qed

theorem save_processed_video_commit_witness:
  "(ledger_file (snd (save_processed_video env_disk_ok world0 (asc ''1_2''))) =
      Some (asc ''1_2'' @ [10]) \<and>
    processed_videos (snd (save_processed_video env_disk_ok world0 (asc ''1_2''))) =
      {asc ''1_2''}) \<and>
   processed_videos (snd (save_processed_video env_disk_full world0 (asc ''1_2''))) = {}"
  using save_processed_video_commit [of env_disk_ok world0 "asc ''1_2''"]
    save_processed_video_commit [of env_disk_full world0 "asc ''1_2''"]
  by (simp add: env_disk_ok_def env_disk_full_def world0_def)

text \<open>
  C4, as the claim states it, fails: the append raises \<open>OSError\<close> when the file has been
  created and two characters written, and the identifier is not in the in-memory set
  afterwards.
\<close>

theorem save_processed_video_io_error_counterexample:
  "ledger_append env_disk_full (ledger_file world0) (asc ''1_2'') = Some (WriteFailed OSError 2) \<and>
   ledger_file (snd (save_processed_video env_disk_full world0 (asc ''1_2''))) = Some (asc ''1_'') \<and>
   asc ''1_2'' \<notin> processed_videos (snd (save_processed_video env_disk_full world0 (asc ''1_2'')))"
  by (simp add: env_disk_full_def world0_def save_processed_video_def save_try_def asc_def)

lemma ledger_file_record_all:
  "\<forall>f i. ledger_append E f i = None \<Longrightarrow>
   ledger_file (record_all E w ids) =
     (if ids = [] then ledger_file w
      else Some ((case ledger_file w of None \<Rightarrow> [] | Some c \<Rightarrow> c) @ ledger_lines ids))"
  unfolding record_all_def
proof (induction ids arbitrary: w)
  case Nil
  then show ?case by simp
next
  case (Cons i ids)
  then show ?case
    by (simp add: save_processed_video_ok ledger_lines_def)
qed

lemma universal_newlines_id: "13 \<notin> set s \<Longrightarrow> universal_newlines s = s"
  by (induction s rule: universal_newlines.induct) auto

lemma splitlines_from_line:
  "\<forall>c\<in>set i. \<not> is_linebreak c \<Longrightarrow>
   splitlines_from False cur (i @ 10 # rest) = (cur @ i) # splitlines_from False [] rest"
  by (induction i arbitrary: cur) (auto simp: is_linebreak_def)

lemma splitlines_ledger_lines:
  "\<forall>i\<in>set ids. \<forall>c\<in>set i. \<not> is_linebreak c \<Longrightarrow> splitlines (ledger_lines ids) = ids"
  unfolding splitlines_def ledger_lines_def
  by (induction ids) (auto simp: splitlines_from_line)

lemma no_cr_ledger_lines:
  "\<forall>i\<in>set ids. \<forall>c\<in>set i. \<not> is_linebreak c \<Longrightarrow> 13 \<notin> set (ledger_lines ids)"
  by (auto simp: ledger_lines_def is_linebreak_def)

text \<open>
  C5, amended: starting from a missing or empty ledger file, with appends and the read
  succeeding, recording a list of identifiers none of which contains a line boundary of
  \<open>splitlines\<close> and loading the file into a fresh state gives exactly the set of the
  identifiers.
\<close>

theorem ledger_roundtrip:
  assumes "ledger_file w = None \<or> ledger_file w = Some []"
    and "\<forall>f i. ledger_append E f i = None"
    and "\<forall>c. ledger_read E c = None"
    and "\<forall>i\<in>set ids. \<forall>c\<in>set i. \<not> is_linebreak c"
  shows "processed_videos
           (load_processed_videos E ((record_all E w ids)\<lparr>processed_videos := {}\<rparr>)) = set ids"
proof (cases "ids = []")
  case True
  with assms(1,3) show ?thesis
    by (auto simp: record_all_def load_processed_videos_def splitlines_def)
next
  case False
  have "ledger_file (record_all E w ids) = Some (ledger_lines ids)"
    using assms(1,2) False by (auto simp: ledger_file_record_all)
  then show ?thesis
    using assms(3,4)
    by (simp add: load_processed_videos_def universal_newlines_id no_cr_ledger_lines
        splitlines_ledger_lines)
qed

theorem ledger_roundtrip_witness:
  "processed_videos
     (load_processed_videos env_disk_ok
        ((record_all env_disk_ok world0 [asc ''1_2'', asc ''-3_4'', asc ''1_2''])
           \<lparr>processed_videos := {}\<rparr>))
     = {asc ''1_2'', asc ''-3_4''}"
  using ledger_roundtrip [of world0 env_disk_ok "[asc ''1_2'', asc ''-3_4'', asc ''1_2'']"]
  by (simp add: env_disk_ok_def env_disk_full_def world0_def asc_def is_linebreak_def
      insert_commute)

text \<open>
  C5, as the claim states it, fails: the identifier made of the letter a, a carriage return
  and the letter b contains no line feed, and it is read back as two identifiers.
\<close>

theorem ledger_roundtrip_carriage_return_counterexample:
  "10 \<notin> set a_cr_b \<and>
   processed_videos
     (load_processed_videos env_disk_ok
        ((record_all env_disk_ok world0 [a_cr_b])\<lparr>processed_videos := {}\<rparr>))
     = {[97], [98]} \<and>
   {[97], [98]} \<noteq> set [a_cr_b]"
  by (simp add: env_disk_ok_def env_disk_full_def world0_def record_all_def a_cr_b_def
      save_processed_video_def save_try_def load_processed_videos_def splitlines_def
      is_linebreak_def)

section \<open>Traces and the poster\<close>

lemma grows_refl: "grows P w w"
  by (simp add: grows_def)

lemma grows_trans: "grows P w w1 \<Longrightarrow> grows P w1 w2 \<Longrightarrow> grows P w w2"
  by (auto simp: grows_def)

lemma receipts_append: "receipts E h (a @ b) = receipts E h a @ receipts E (h @ a) b"
  by (induction a arbitrary: h) auto

lemma exn_cases_send_text:
  obtains (retry) t where "e = RetryAfter t"
  | (fatal) "e = ChatNotFound \<or> e = NetworkError"
  | (api) "e = TelegramAPIError"
  | (other) "\<not> is_TelegramAPIError e"
  by (cases e) auto

text \<open>One attempt of \<open>send_text\<close>, by the answer of the API.\<close>

lemma send_text_attempts_sent:
  "bot E (trace w) (SendMessage ch (truncate_text m MAX_CAPTION_LENGTH)) = Inr msg \<Longrightarrow>
   send_text_attempts E m ch (Suc k) msgs w =
     (Inr (msgs @ [msg]),
      w\<lparr>trace := trace w @ [Api (SendMessage ch (truncate_text m MAX_CAPTION_LENGTH))]\<rparr>)"
  by (simp add: call_api_def)

lemma send_text_attempts_retry:
  "bot E (trace w) (SendMessage ch (truncate_text m MAX_CAPTION_LENGTH)) = Inl (RetryAfter t) \<Longrightarrow>
   send_text_attempts E m ch (Suc k) msgs w =
     send_text_attempts E m ch k msgs
       (w\<lparr>trace := trace w @ [Api (SendMessage ch (truncate_text m MAX_CAPTION_LENGTH)), Sleep t]\<rparr>)"
  by (simp add: call_api_def handle_retry_def)

lemma send_text_attempts_fatal:
  "bot E (trace w) (SendMessage ch (truncate_text m MAX_CAPTION_LENGTH)) = Inl e \<Longrightarrow>
   e = ChatNotFound \<or> e = NetworkError \<Longrightarrow>
   send_text_attempts E m ch (Suc k) msgs w =
     (Inr msgs,
      w\<lparr>trace := trace w @ [Api (SendMessage ch (truncate_text m MAX_CAPTION_LENGTH))]\<rparr>)"
  by (auto simp: call_api_def)

lemma send_text_attempts_api_error:
  "bot E (trace w) (SendMessage ch (truncate_text m MAX_CAPTION_LENGTH)) = Inl TelegramAPIError \<Longrightarrow>
   send_text_attempts E m ch (Suc k) msgs w =
     send_text_attempts E m ch k msgs
       (w\<lparr>trace := trace w @ [Api (SendMessage ch (truncate_text m MAX_CAPTION_LENGTH))]\<rparr>)"
  by (simp add: call_api_def)

lemma send_text_attempts_raise:
  "bot E (trace w) (SendMessage ch (truncate_text m MAX_CAPTION_LENGTH)) = Inl e \<Longrightarrow>
   \<not> is_TelegramAPIError e \<Longrightarrow>
   send_text_attempts E m ch (Suc k) msgs w =
     (Inl e,
      w\<lparr>trace := trace w @ [Api (SendMessage ch (truncate_text m MAX_CAPTION_LENGTH))]\<rparr>)"
  by (cases e) (auto simp: call_api_def)

declare send_text_attempts.simps(2) [simp del]

lemma send_text_attempts_grows:
  assumes "P (Api (SendMessage ch (truncate_text m MAX_CAPTION_LENGTH)))" and "\<forall>t. P (Sleep t)"
  shows "grows P w (snd (send_text_attempts E m ch k msgs w))"
proof (induction k arbitrary: msgs w)
  case 0
  show ?case by (simp add: grows_refl)
next
  case (Suc k)
  let ?c = "SendMessage ch (truncate_text m MAX_CAPTION_LENGTH)"
  let ?w1 = "w\<lparr>trace := trace w @ [Api ?c]\<rparr>"
  let ?w2 = "\<lambda>t. w\<lparr>trace := trace w @ [Api ?c, Sleep t]\<rparr>"
  have g1: "grows P w ?w1" using assms(1) by (simp add: grows_def)
  have g2: "grows P w (?w2 t)" for t
    using assms by (simp add: grows_def)
  show ?case
  proof (cases "bot E (trace w) ?c")
    case (Inr msg)
    then show ?thesis using g1 by (simp add: send_text_attempts_sent)
  next
    case (Inl e)
    show ?thesis
    proof (cases e rule: exn_cases_send_text)
      case (retry t)
      with Inl show ?thesis
        using grows_trans [OF g2 [of t] Suc.IH [of "?w2 t" msgs]]
        by (simp add: send_text_attempts_retry)
    next
      case api
      with Inl show ?thesis
        using grows_trans [OF g1 Suc.IH [of ?w1 msgs]]
        by (simp add: send_text_attempts_api_error)
    next
      case fatal
      with Inl g1 show ?thesis by (simp add: send_text_attempts_fatal)
    next
      case other
      with Inl g1 show ?thesis by (simp add: send_text_attempts_raise)
    qed
  qed
qed

text \<open>What one channel's attempts return, and that they touch nothing but the trace.\<close>

lemma send_text_attempts_result:
  "\<exists>new. snd (send_text_attempts E m ch k msgs w) = w\<lparr>trace := trace w @ new\<rparr> \<and>
     (case fst (send_text_attempts E m ch k msgs w) of
        Inr r \<Rightarrow> r = msgs @ receipts E (trace w) new
      | Inl e \<Rightarrow> \<not> is_TelegramAPIError e \<and> (\<exists>h c. bot E h c = Inl e))"
proof (induction k arbitrary: msgs w)
  case 0
  have "w = w\<lparr>trace := trace w @ []\<rparr>" by simp
  then show ?case by (intro exI [of _ "[]"]) simp
next
  case (Suc k)
  let ?c = "SendMessage ch (truncate_text m MAX_CAPTION_LENGTH)"
  let ?w1 = "w\<lparr>trace := trace w @ [Api ?c]\<rparr>"
  show ?case
  proof (cases "bot E (trace w) ?c")
    case (Inr msg)
    then show ?thesis
      by (intro exI [of _ "[Api ?c]"]) (simp add: send_text_attempts_sent)
  next
    case (Inl e)
    have again: ?thesis
      if "send_text_attempts E m ch (Suc k) msgs w = send_text_attempts E m ch k msgs w2"
        and "w2 = w\<lparr>trace := trace w @ Api ?c # pre\<rparr>" and "receipts E (trace w @ [Api ?c]) pre = []"
      for w2 pre
    proof -
      from Suc.IH [of msgs w2] obtain new where
        n: "snd (send_text_attempts E m ch k msgs w2) = w2\<lparr>trace := trace w2 @ new\<rparr>"
          "case fst (send_text_attempts E m ch k msgs w2) of
             Inr r \<Rightarrow> r = msgs @ receipts E (trace w2) new
           | Inl e \<Rightarrow> \<not> is_TelegramAPIError e \<and> (\<exists>h c. bot E h c = Inl e)"
        by blast
      show ?thesis
        using n that Inl
        by (intro exI [of _ "Api ?c # pre @ new"])
          (auto simp: receipts_append split: sum.splits)
    qed
    show ?thesis
    proof (cases e rule: exn_cases_send_text)
      case (retry t)
      show ?thesis
        by (rule again [of _ "[Sleep t]"])
          (use Inl retry in \<open>simp_all add: send_text_attempts_retry\<close>)
    next
      case api
      show ?thesis
        by (rule again [of ?w1 "[]"])
          (use Inl api in \<open>simp_all add: send_text_attempts_api_error\<close>)
    next
      case fatal
      with Inl show ?thesis
        by (intro exI [of _ "[Api ?c]"]) (simp add: send_text_attempts_fatal)
    next
      case other
      with Inl show ?thesis
        by (intro exI [of _ "[Api ?c]"]) (auto simp: send_text_attempts_raise)
    qed
  qed
qed

lemma send_text_channels_grows:
  assumes "\<forall>ch\<in>set chs. P (Api (SendMessage ch (truncate_text m MAX_CAPTION_LENGTH)))"
    and "\<forall>t. P (Sleep t)"
  shows "grows P w (snd (send_text_channels E m k chs msgs w))"
  using assms(1)
proof (induction chs arbitrary: msgs w)
  case Nil
  show ?case by (simp add: grows_refl)
next
  case (Cons ch chs)
  obtain r w1 where a: "send_text_attempts E m ch k msgs w = (r, w1)"
    by (cases "send_text_attempts E m ch k msgs w")
  have g: "grows P w w1"
    using send_text_attempts_grows [of P ch m w E k msgs] Cons.prems assms(2) a by simp
  show ?case
  proof (cases r)
    case (Inl e)
    with a g show ?thesis by simp
  next
    case (Inr msgs1)
    with a show ?thesis
      using grows_trans [OF g Cons.IH [of w1 msgs1]] Cons.prems by simp
  qed
qed

lemma send_text_channels_result:
  "\<exists>new. snd (send_text_channels E m k chs msgs w) = w\<lparr>trace := trace w @ new\<rparr> \<and>
     (case fst (send_text_channels E m k chs msgs w) of
        Inr r \<Rightarrow> r = msgs @ receipts E (trace w) new
      | Inl e \<Rightarrow> \<not> is_TelegramAPIError e \<and> (\<exists>h c. bot E h c = Inl e))"
proof (induction chs arbitrary: msgs w)
  case Nil
  have "w = w\<lparr>trace := trace w @ []\<rparr>" by simp
  then show ?case by (intro exI [of _ "[]"]) simp
next
  case (Cons ch chs)
  obtain r w1 where a: "send_text_attempts E m ch k msgs w = (r, w1)"
    by (cases "send_text_attempts E m ch k msgs w")
  from send_text_attempts_result [of E m ch k msgs w] a obtain new1 where
    n1: "w1 = w\<lparr>trace := trace w @ new1\<rparr>"
      "case r of Inr r' \<Rightarrow> r' = msgs @ receipts E (trace w) new1
       | Inl e \<Rightarrow> \<not> is_TelegramAPIError e \<and> (\<exists>h c. bot E h c = Inl e)"
    by auto
  show ?case
  proof (cases r)
    case (Inl e)
    with a n1 show ?thesis by (intro exI [of _ new1]) simp
  next
    case (Inr msgs1)
    from Cons.IH [of msgs1 w1] obtain new2 where
      n2: "snd (send_text_channels E m k chs msgs1 w1) = w1\<lparr>trace := trace w1 @ new2\<rparr>"
        "case fst (send_text_channels E m k chs msgs1 w1) of
           Inr r \<Rightarrow> r = msgs1 @ receipts E (trace w1) new2
         | Inl e \<Rightarrow> \<not> is_TelegramAPIError e \<and> (\<exists>h c. bot E h c = Inl e)"
      by blast
    show ?thesis
      using a Inr n1 n2
      by (intro exI [of _ "new1 @ new2"]) (auto simp: receipts_append split: sum.splits)
  qed
qed

lemma send_text_grows:
  "\<forall>ch\<in>set chs. P (Api (SendMessage ch (truncate_text m MAX_CAPTION_LENGTH))) \<Longrightarrow>
   \<forall>t. P (Sleep t) \<Longrightarrow> grows P w (snd (send_text E w m chs k))"
  by (simp add: send_text_def send_text_channels_grows)

lemma send_text_result:
  "\<exists>new. snd (send_text E w m chs k) = w\<lparr>trace := trace w @ new\<rparr> \<and>
     (case fst (send_text E w m chs k) of
        Inr r \<Rightarrow> r = receipts E (trace w) new
      | Inl e \<Rightarrow> \<not> is_TelegramAPIError e \<and> (\<exists>h c. bot E h c = Inl e))"
proof -
  from send_text_channels_result [of E m k chs "[]" w] obtain new where
    "snd (send_text_channels E m k chs [] w) = w\<lparr>trace := trace w @ new\<rparr>"
    "case fst (send_text_channels E m k chs [] w) of
       Inr r \<Rightarrow> r = [] @ receipts E (trace w) new
     | Inl e \<Rightarrow> \<not> is_TelegramAPIError e \<and> (\<exists>h c. bot E h c = Inl e)"
    by blast
  then show ?thesis
    unfolding send_text_def by (intro exI [of _ new]) (auto split: sum.splits)
qed

text \<open>The file system: what removing a file does.\<close>

lemma map_of_filter_neq:
  "map_of (filter (\<lambda>(n, s). n \<noteq> p) xs) q = (if q = p then None else map_of xs q)"
  by (induction xs) auto

lemma exists_unlink: "\<not> exists (unlink p w) p"
  by (simp add: exists_def unlink_def map_of_filter_neq)

text \<open>The request for one channel in \<open>send_video\<close>.\<close>

lemma send_video_try_absent:
  "\<not> exists w p \<Longrightarrow> send_video_try E w ch p cap s = (Inl FileNotFoundError, w)"
  by (auto simp: send_video_try_def exists_def direct_upload_def)

lemma send_video_try_present:
  "exists w p \<Longrightarrow> send_video_try E w ch p cap s = call_api E w (upload_request w ch p cap s)"
  by (auto simp: send_video_try_def exists_def direct_upload_def stream_upload_def
      upload_request_def)

lemma call_api_grows: "P (Api c) \<Longrightarrow> grows P w (snd (call_api E w c))"
  by (simp add: call_api_def grows_def)

lemma send_video_try_grows:
  assumes "\<forall>va. P (Api (SendVideo ch va (truncate_text cap MAX_CAPTION_LENGTH)))"
  shows "grows P w (snd (send_video_try E w ch p cap s))"
proof (cases "exists w p")
  case True
  then show ?thesis
    using assms by (simp add: send_video_try_present call_api_grows upload_request_def)
next
  case False
  then show ?thesis by (simp add: send_video_try_absent grows_refl)
qed

lemma safe_delete_grows: "P (Unlink p) \<Longrightarrow> grows P w (safe_delete w p)"
  by (simp add: safe_delete_def unlink_def grows_def)

lemma send_video_channels_grows:
  assumes "\<forall>ch va. P (Api (SendVideo ch va (truncate_text cap MAX_CAPTION_LENGTH)))"
    and "P (Unlink p)"
  shows "grows P w (snd (send_video_channels E cap p s chs msgs w))"
proof (induction chs arbitrary: msgs w)
  case Nil
  show ?case by (simp add: grows_refl)
next
  case (Cons ch chs)
  obtain r w1 where a: "send_video_try E w ch p cap s = (r, w1)"
    by (cases "send_video_try E w ch p cap s")
  have g1: "grows P w w1"
    using send_video_try_grows [of P ch cap w E p s] assms(1) a by simp
  show ?case
  proof (cases r)
    case (Inl e)
    with a show ?thesis
      using grows_trans [OF g1 Cons.IH [of w1 msgs]] by simp
  next
    case (Inr msg)
    let ?w2 = "if DELETE_LOCAL_COPY (cfg E) then safe_delete w1 p else w1"
    have g2: "grows P w1 ?w2"
      using assms(2) by (simp add: safe_delete_grows grows_refl)
    show ?thesis
      using a Inr grows_trans [OF g1 grows_trans [OF g2 Cons.IH [of ?w2 "msgs @ [msg]"]]]
      by simp
  qed
qed

text \<open>
  What the loop of \<open>send_video\<close> returns: the receipts of its requests; it touches only the
  trace and the download directory.
\<close>

lemma receipts_Unlink [simp]: "receipts E h [Unlink p] = []"
  by simp

lemma send_video_channels_result:
  "\<exists>new dd. snd (send_video_channels E cap p s chs msgs w)
       = w\<lparr>download_dir := dd, trace := trace w @ new\<rparr> \<and>
     fst (send_video_channels E cap p s chs msgs w) = msgs @ receipts E (trace w) new"
proof (induction chs arbitrary: msgs w)
  case Nil
  have "w = w\<lparr>download_dir := download_dir w, trace := trace w @ []\<rparr>" by simp
  then show ?case by (intro exI [of _ "[]"] exI [of _ "download_dir w"]) simp
next
  case (Cons ch chs)
  show ?case
  proof (cases "exists w p")
    case False
    from Cons.IH [of msgs w] obtain new dd where
      "snd (send_video_channels E cap p s chs msgs w) = w\<lparr>download_dir := dd, trace := trace w @ new\<rparr>"
      "fst (send_video_channels E cap p s chs msgs w) = msgs @ receipts E (trace w) new"
      by blast
    with False show ?thesis
      by (intro exI [of _ new] exI [of _ dd]) (simp add: send_video_try_absent)
  next
    case True
    let ?c = "upload_request w ch p cap s"
    let ?w1 = "w\<lparr>trace := trace w @ [Api ?c]\<rparr>"
    have t: "send_video_try E w ch p cap s = (bot E (trace w) ?c, ?w1)"
      using True by (simp add: send_video_try_present call_api_def)
    show ?thesis
    proof (cases "bot E (trace w) ?c")
      case (Inl e)
      from Cons.IH [of msgs ?w1] obtain new dd where
        "snd (send_video_channels E cap p s chs msgs ?w1)
           = ?w1\<lparr>download_dir := dd, trace := trace ?w1 @ new\<rparr>"
        "fst (send_video_channels E cap p s chs msgs ?w1) = msgs @ receipts E (trace ?w1) new"
        by blast
      with t Inl show ?thesis
        by (intro exI [of _ "Api ?c # new"] exI [of _ dd]) simp
    next
      case (Inr msg)
      let ?w2 = "if DELETE_LOCAL_COPY (cfg E) then safe_delete ?w1 p else ?w1"
      obtain pre dd2 where w2: "?w2 = w\<lparr>download_dir := dd2, trace := trace w @ Api ?c # pre\<rparr>"
        "receipts E (trace w @ [Api ?c]) pre = []"
      proof (cases "DELETE_LOCAL_COPY (cfg E) \<and> exists ?w1 p")
        case True
        show ?thesis
          by (rule that [of "[Unlink p]" "filter (\<lambda>(n, s). n \<noteq> p) (download_dir w)"])
            (use True in \<open>simp_all add: safe_delete_def unlink_def\<close>)
      next
        case False
        have "w\<lparr>trace := trace w @ [Api ?c]\<rparr>
                = w\<lparr>download_dir := download_dir w, trace := trace w @ [Api ?c]\<rparr>"
          by simp
        then show ?thesis
          by (intro that [of "[]" "download_dir w"]) (use False in \<open>auto simp: safe_delete_def\<close>)
      qed
      from Cons.IH [of "msgs @ [msg]" ?w2] obtain new dd where
        "snd (send_video_channels E cap p s chs (msgs @ [msg]) ?w2)
           = ?w2\<lparr>download_dir := dd, trace := trace ?w2 @ new\<rparr>"
        "fst (send_video_channels E cap p s chs (msgs @ [msg]) ?w2)
           = (msgs @ [msg]) @ receipts E (trace ?w2) new"
        by blast
      then show ?thesis
        using t Inr w2
        by (intro exI [of _ "Api ?c # pre @ new"] exI [of _ dd]) (simp add: receipts_append)
    qed
  qed
qed


lemma upload_request_trace [simp]:
  "upload_request (w\<lparr>trace := t\<rparr>) ch p cap s = upload_request w ch p cap s"
  by (simp add: upload_request_def)

lemma exists_trace [simp]: "exists (w\<lparr>trace := t\<rparr>) p = exists w p"
  by (simp add: exists_def)



lemma send_video_valid:
  "validate_video E w p = Inr () \<Longrightarrow>
   send_video E w cap p chs k s =
     (Inr (fst (send_video_channels E cap p s chs [] w)),
      snd (send_video_channels E cap p s chs [] w))"
  by (simp add: send_video_def split: prod.splits)

lemma send_video_invalid:
  "validate_video E w p = Inl e \<Longrightarrow> send_video E w cap p chs k s = (Inl e, w)"
  by (simp add: send_video_def)

lemma send_video_valid_eq:
  "validate_video E w p = Inr () \<Longrightarrow>
   (send_video E w cap p chs k s = (Inr ms, w1)) =
     (send_video_channels E cap p s chs [] w = (ms, w1))"
  by (auto simp: send_video_def split: prod.splits)

lemma send_video_grows:
  assumes "\<forall>ch va. P (Api (SendVideo ch va (truncate_text cap MAX_CAPTION_LENGTH)))"
    and "P (Unlink p)"
  shows "grows P w (snd (send_video E w cap p chs k s))"
proof (cases "validate_video E w p")
  case (Inl e)
  then show ?thesis by (simp add: send_video_invalid grows_refl)
next
  case (Inr u)
  then show ?thesis
    using send_video_channels_grows [OF assms, of w E s chs "[]"] by (simp add: send_video_valid)
qed

text \<open>
  With API failures of the four kinds the poster names (a rate limit, a chat not found, a
  network error, any other API error), \<open>send_text\<close> returns, and what it returns are the
  receipts of the requests that succeeded; \<open>send_video\<close> on a file that passes the
  validation returns the receipts whatever the requests raise.
\<close>

lemma publish_returns_receipts:
  "((\<forall>h c e. bot E h c = Inl e \<longrightarrow> is_TelegramAPIError e) \<longrightarrow>
      (\<exists>new. send_text E w m chs k =
         (Inr (receipts E (trace w) new), w\<lparr>trace := trace w @ new\<rparr>))) \<and>
   (validate_video E w p = Inr () \<longrightarrow>
      (\<exists>new dd. send_video E w cap p chs k s =
         (Inr (receipts E (trace w) new), w\<lparr>download_dir := dd, trace := trace w @ new\<rparr>)))"
proof (intro conjI impI)
  assume H: "\<forall>h c e. bot E h c = Inl e \<longrightarrow> is_TelegramAPIError e"
  from send_text_result [of E w m chs k] obtain new where
    n: "snd (send_text E w m chs k) = w\<lparr>trace := trace w @ new\<rparr>"
      "case fst (send_text E w m chs k) of
         Inr r \<Rightarrow> r = receipts E (trace w) new
       | Inl e \<Rightarrow> \<not> is_TelegramAPIError e \<and> (\<exists>h c. bot E h c = Inl e)"
    by blast
  from n(2) H have "fst (send_text E w m chs k) = Inr (receipts E (trace w) new)"
    by (cases "fst (send_text E w m chs k)") auto
  with n(1) have "send_text E w m chs k =
         (Inr (receipts E (trace w) new), w\<lparr>trace := trace w @ new\<rparr>)"
    by (simp add: prod_eq_iff)
  then show "\<exists>new. send_text E w m chs k =
         (Inr (receipts E (trace w) new), w\<lparr>trace := trace w @ new\<rparr>)" ..
next
  assume V: "validate_video E w p = Inr ()"
  from send_video_channels_result [of E cap p s chs "[]" w] obtain new dd where
    "snd (send_video_channels E cap p s chs [] w) = w\<lparr>download_dir := dd, trace := trace w @ new\<rparr>"
    "fst (send_video_channels E cap p s chs [] w) = [] @ receipts E (trace w) new"
    by blast
  then have "send_video E w cap p chs k s =
         (Inr (receipts E (trace w) new), w\<lparr>download_dir := dd, trace := trace w @ new\<rparr>)"
    using V by (simp add: send_video_valid)
  then show "\<exists>new dd. send_video E w cap p chs k s =
         (Inr (receipts E (trace w) new), w\<lparr>download_dir := dd, trace := trace w @ new\<rparr>)"
    by blast
qed

text \<open>
  C7 at two channels, when the request to the first raises an exception that is not an API
  error: \<open>send_text\<close> raises it, and the second channel, which would have answered with
  a message, gets no request. \<open>send_video\<close> on a valid file goes on to the second channel
  and returns its receipt.
\<close>

theorem send_text_raises_on_other_exception:
  "send_text env_a_raises world_one_file (asc ''hi'') [asc ''@a'', asc ''@b''] 3 =
     (Inl OtherException,
      world_one_file\<lparr>trace := [Api (SendMessage (asc ''@a'') (asc ''hi''))]\<rparr>) \<and>
   bot env_a_raises [Api (SendMessage (asc ''@a'') (asc ''hi''))]
     (SendMessage (asc ''@b'') (asc ''hi'')) = Inr 7 \<and>
   send_video env_a_raises world_one_file (asc ''hi'') video_1_2_mp4 [asc ''@a'', asc ''@b''] 3 False =
     (Inr [7],
      world_one_file
        \<lparr>download_dir := [],
         trace := [Api (SendVideo (asc ''@a'') (InputFile video_1_2_mp4) (asc ''hi'')),
                   Api (SendVideo (asc ''@b'') (InputFile video_1_2_mp4) (asc ''hi'')),
                   Unlink video_1_2_mp4]\<rparr>)"
proof (intro conjI)
  have t: "truncate_text (asc ''hi'') MAX_CAPTION_LENGTH = asc ''hi''"
    by (simp add: truncate_text_def MAX_CAPTION_LENGTH_def asc_def)
  have ba: "bot env_a_raises h (SendMessage (asc ''@a'') x) = Inl OtherException"
    and bva: "bot env_a_raises h (SendVideo (asc ''@a'') y x) = Inl OtherException"
    and bvb: "bot env_a_raises h (SendVideo (asc ''@b'') y x) = Inr 7" for h x y
    by (simp_all add: env_a_raises_def env_all_ok_def env_rate_limited_def asc_def)
  have d: "DELETE_LOCAL_COPY (cfg env_a_raises)"
    by (simp add: env_a_raises_def env_all_ok_def env_rate_limited_def)
  show "send_text env_a_raises world_one_file (asc ''hi'') [asc ''@a'', asc ''@b''] 3 =
     (Inl OtherException,
      world_one_file\<lparr>trace := [Api (SendMessage (asc ''@a'') (asc ''hi''))]\<rparr>)"
    by (simp add: send_text_def numeral_3_eq_3
        send_text_attempts_raise [OF ba [unfolded t [symmetric]]] t)
      (simp add: world_one_file_def world0_def)
  show "bot env_a_raises [Api (SendMessage (asc ''@a'') (asc ''hi''))]
     (SendMessage (asc ''@b'') (asc ''hi'')) = Inr 7"
    by (simp add: env_a_raises_def env_all_ok_def env_rate_limited_def asc_def)
  have v: "validate_video env_a_raises world_one_file video_1_2_mp4 = Inr ()"
    by (simp add: validate_video_def env_a_raises_def env_all_ok_def env_rate_limited_def
        world_one_file_def world0_def video_1_2_mp4_def path_suffix_def path_name_def lower_def
        lower_char_def SUPPORTED_VIDEO_FORMATS_def asc_def)
  have e: "exists world_one_file video_1_2_mp4"
    by (simp add: exists_def world_one_file_def world0_def)
  have u: "upload_request world_one_file ch video_1_2_mp4 (asc ''hi'') False =
             SendVideo ch (InputFile video_1_2_mp4) (asc ''hi'')" for ch
    by (simp add: upload_request_def t)
  show "send_video env_a_raises world_one_file (asc ''hi'') video_1_2_mp4 [asc ''@a'', asc ''@b''] 3 False =
     (Inr [7],
      world_one_file
        \<lparr>download_dir := [],
         trace := [Api (SendVideo (asc ''@a'') (InputFile video_1_2_mp4) (asc ''hi'')),
                   Api (SendVideo (asc ''@b'') (InputFile video_1_2_mp4) (asc ''hi'')),
                   Unlink video_1_2_mp4]\<rparr>)"
    by (simp add: send_video_valid_eq [OF v] send_video_try_present e call_api_def u bva bvb d
        safe_delete_def send_video_try_absent exists_unlink)
      (simp add: unlink_def world_one_file_def world0_def)
qed

lemma truncate_text_short:
  "length x \<le> 1024 \<Longrightarrow> truncate_text x MAX_CAPTION_LENGTH = x"
  by (simp add: truncate_text_def MAX_CAPTION_LENGTH_def)






lemma grows_trace:
  "grows P w w' \<Longrightarrow> \<exists>new. trace w' = trace w @ new \<and> (\<forall>e\<in>set new. P e)"
  by (auto simp: grows_def list_all_iff)







lemma generate_caption_video_1_2:
  "generate_caption video_1_2 =
     Inr ([42, 97, 9733, 98, 42, 10, 10, 9733, 10, 10, 128197, 32] @ asc ''02.01.2024 03:04''
          @ [32, 124, 32, 128064, 32] @ asc ''5'')"
  by (simp add: generate_caption_def video_1_2_def replace_def strftime_def pad2_def
      str_int_def asc_def str_nat.simps)






text \<open>
  \<open>send_video\<close> never sleeps, and the number of retries it is given makes no difference.
\<close>

lemma send_video_never_sleeps:
  "grows (\<lambda>e. \<forall>t. e \<noteq> Sleep t) w (snd (send_video E w cap p chs k s))"
  by (rule send_video_grows) simp_all

lemma send_video_ignores_retries:
  "send_video E w cap p chs k s = send_video E w cap p chs k' s"
  by (simp add: send_video_def)

text \<open>
  C6 at a channel that answers the first two requests with a rate limit of two seconds:
  \<open>send_video\<close> makes one request, does not sleep, does not try again and returns no
  receipt, with three retries asked for; \<open>send_text\<close> sleeps two seconds after each of the
  two refusals and delivers at the third attempt.
\<close>

theorem send_video_rate_limit_not_retried:
  "send_video env_rate_limited world_one_file (asc ''hi'') video_1_2_mp4 [asc ''@a''] 3 False =
     (Inr [],
      world_one_file
        \<lparr>trace := [Api (SendVideo (asc ''@a'') (InputFile video_1_2_mp4) (asc ''hi''))]\<rparr>) \<and>
   send_text env_rate_limited world_one_file (asc ''hi'') [asc ''@a''] 3 =
     (Inr [7],
      world_one_file
        \<lparr>trace := [Api (SendMessage (asc ''@a'') (asc ''hi'')), Sleep 2,
                   Api (SendMessage (asc ''@a'') (asc ''hi'')), Sleep 2,
                   Api (SendMessage (asc ''@a'') (asc ''hi''))]\<rparr>)"
proof
  have v: "validate_video env_rate_limited world_one_file video_1_2_mp4 = Inr ()"
    by (simp add: validate_video_def env_rate_limited_def world_one_file_def
      world0_def video_1_2_mp4_def path_suffix_def path_name_def lower_def lower_char_def
      SUPPORTED_VIDEO_FORMATS_def asc_def)
  have t: "truncate_text (asc ''hi'') MAX_CAPTION_LENGTH = asc ''hi''"
    by (simp add: truncate_text_def MAX_CAPTION_LENGTH_def asc_def)
  show "send_video env_rate_limited world_one_file (asc ''hi'') video_1_2_mp4 [asc ''@a''] 3 False =
     (Inr [],
      world_one_file
        \<lparr>trace := [Api (SendVideo (asc ''@a'') (InputFile video_1_2_mp4) (asc ''hi''))]\<rparr>)"
    by (simp add: send_video_valid [OF v] send_video_try_def direct_upload_def call_api_def t
        exists_def requests_def)
      (simp add: env_rate_limited_def world_one_file_def world0_def requests_def)
  show "send_text env_rate_limited world_one_file (asc ''hi'') [asc ''@a''] 3 =
     (Inr [7],
      world_one_file
        \<lparr>trace := [Api (SendMessage (asc ''@a'') (asc ''hi'')), Sleep 2,
                   Api (SendMessage (asc ''@a'') (asc ''hi'')), Sleep 2,
                   Api (SendMessage (asc ''@a'') (asc ''hi''))]\<rparr>)"
    by (simp add: send_text_def numeral_3_eq_3 send_text_attempts.simps(2) call_api_def t
        handle_retry_def env_rate_limited_def world_one_file_def world0_def requests_def)
qed

section \<open>The pipeline\<close>

lemma fold_unlink:
  "fold unlink ps w =
     w\<lparr>download_dir := filter (\<lambda>(n, s). n \<notin> set ps) (download_dir w),
       trace := trace w @ map Unlink ps\<rparr>"
proof (induction ps arbitrary: w)
  case Nil
  then show ?case by simp
next
  case (Cons q ps)
  have "filter (\<lambda>(n, s). n \<notin> set ps) (filter (\<lambda>(n, s). n \<noteq> q) xs)
          = filter (\<lambda>(n, s). n \<notin> set (q # ps)) xs" for xs :: "(ustr \<times> nat) list"
    by (induction xs) auto
  with Cons show ?case by (simp add: unlink_def)
qed

lemma cleanup_eq:
  "cleanup E w =
     (if DELETE_LOCAL_COPY (cfg E)
      then w\<lparr>download_dir := [], trace := trace w @ map Unlink (remdups (map fst (download_dir w)))\<rparr>
      else w)"
proof -
  have "filter (\<lambda>(n, s). n \<notin> set (remdups (map fst xs))) xs = []" for xs :: "(ustr \<times> nat) list"
    by (force simp: filter_empty_conv)
  then show ?thesis by (simp add: cleanup_def fold_unlink)
qed

text \<open>
  What the handler of a posting failure does when it runs: with the deletion flag set and
  the artifact still there, it empties the download directory, whatever the files belong
  to; without the flag, or with the artifact gone, it changes nothing. It never touches
  the ledger.
\<close>

lemma handle_posting_failure_empties_directory:
  "(DELETE_LOCAL_COPY (cfg E) \<and> exists w p \<longrightarrow>
      download_dir (handle_posting_failure E w p) = []) \<and>
   (\<not> DELETE_LOCAL_COPY (cfg E) \<or> \<not> exists w p \<longrightarrow> handle_posting_failure E w p = w) \<and>
   processed_videos (handle_posting_failure E w p) = processed_videos w \<and>
   ledger_file (handle_posting_failure E w p) = ledger_file w"
  by (simp add: handle_posting_failure_def cleanup_eq)

text \<open>
  What each stage may add to the trace, and that no stage but the ledger's changes the set
  of processed identifiers, which only grows.
\<close>

lemma download_try_world:
  "snd (download_try E w u f) =
     w\<lparr>download_dir := write_files (fst (ydl E (trace w) u f)) (download_dir w),
       trace := trace w @ [Fetch u f]\<rparr>"
  by (simp add: download_try_def Let_def split: prod.splits sum.splits option.splits)

lemma download_grows:
  assumes "P (Fetch u f)" and "\<forall>p. P (Unlink p)"
  shows "grows P w (snd (download E w u f))"
proof -
  obtain r fp w1 where t: "download_try E w u f = ((r, fp), w1)"
    by (metis surj_pair)
  have w1: "trace w1 = trace w @ [Fetch u f]"
    using download_try_world [of E w u f] t by simp
  have g1: "grows P w w1" using w1 assms(1) by (simp add: grows_def)
  have g2: "grows P w (unlink p w1)" for p
    using w1 assms by (simp add: grows_def unlink_def)
  show ?thesis
    using t g1 g2 by (simp add: download_def split: sum.splits option.splits)
qed

lemma download_frame:
  "processed_videos (snd (download E w u f)) = processed_videos w \<and>
   ledger_file (snd (download E w u f)) = ledger_file w"
proof -
  obtain r fp w1 where t: "download_try E w u f = ((r, fp), w1)"
    by (metis surj_pair)
  have "processed_videos w1 = processed_videos w \<and> ledger_file w1 = ledger_file w"
    using download_try_world [of E w u f] t by simp
  then show ?thesis
    using t by (simp add: download_def unlink_def split: sum.splits option.splits)
qed

lemma cleanup_grows: "\<forall>p. P (Unlink p) \<Longrightarrow> grows P w (cleanup E w)"
  by (simp add: cleanup_eq grows_def list_all_iff)

lemma handle_posting_failure_grows:
  "\<forall>p. P (Unlink p) \<Longrightarrow> grows P w (handle_posting_failure E w q)"
  by (simp add: handle_posting_failure_def cleanup_grows grows_refl)

lemma handle_download_failure_grows:
  assumes "\<forall>c. P (Api c)" and "\<forall>t. P (Sleep t)"
  shows "grows P w (handle_download_failure E w v)"
  using assms by (cases "title v") (simp_all add: handle_download_failure_def grows_refl send_text_grows)

lemma send_text_frame:
  "processed_videos (snd (send_text E w m chs k)) = processed_videos w \<and>
   ledger_file (snd (send_text E w m chs k)) = ledger_file w \<and>
   download_dir (snd (send_text E w m chs k)) = download_dir w"
proof -
  from send_text_result [of E w m chs k] obtain new where
    "snd (send_text E w m chs k) = w\<lparr>trace := trace w @ new\<rparr>" by blast
  then show ?thesis by simp
qed

lemma handle_download_failure_frame:
  "processed_videos (handle_download_failure E w v) = processed_videos w \<and>
   ledger_file (handle_download_failure E w v) = ledger_file w \<and>
   download_dir (handle_download_failure E w v) = download_dir w"
  by (cases "title v") (simp_all add: handle_download_failure_def send_text_frame)

lemma send_video_frame:
  "processed_videos (snd (send_video E w cap p chs k s)) = processed_videos w \<and>
   ledger_file (snd (send_video E w cap p chs k s)) = ledger_file w"
proof (cases "validate_video E w p")
  case (Inl e)
  then show ?thesis by (simp add: send_video_invalid)
next
  case (Inr u)
  from send_video_channels_result [of E cap p s chs "[]" w] obtain new dd where
    "snd (send_video_channels E cap p s chs [] w) = w\<lparr>download_dir := dd, trace := trace w @ new\<rparr>"
    by blast
  with Inr show ?thesis by (simp add: send_video_valid)
qed

lemma save_processed_video_trace:
  "trace (snd (save_processed_video E w i)) = trace w \<and>
   download_dir (snd (save_processed_video E w i)) = download_dir w \<and>
   processed_videos w \<subseteq> processed_videos (snd (save_processed_video E w i))"
proof (cases "ledger_append E (ledger_file w) i")
  case None
  then show ?thesis by (auto simp: save_processed_video_ok)
next
  case (Some x)
  from save_processed_video_fail [OF this] obtain f where
    "snd (save_processed_video E w i) = w\<lparr>ledger_file := f\<rparr>" ..
  then show ?thesis by simp
qed

lemma process_single_video_try_step:
  assumes "\<forall>u. P (Fetch u (asc ''video_'' @ i))" and "\<forall>c. P (Api c)" and "\<forall>t. P (Sleep t)"
    and "\<forall>p. P (Unlink p)"
  shows "grows P w (snd (process_single_video_try E w v i)) \<and>
         processed_videos w \<subseteq> processed_videos (snd (process_single_video_try E w v i))"
proof -
  let ?f = "asc ''video_'' @ i"
  obtain r1 w1 where d: "download E w (url v) ?f = (r1, w1)"
    by (cases "download E w (url v) ?f")
  have g1: "grows P w w1"
    using download_grows [of P "url v" ?f w E] assms d by simp
  have f1: "processed_videos w1 = processed_videos w"
    using download_frame [of E w "url v" ?f] d by simp
  show ?thesis
  proof (cases r1)
    case (Inl e)
    with d g1 f1 show ?thesis by (simp add: process_single_video_try_def)
  next
    case (Inr path)
    show ?thesis
    proof (cases "generate_caption v")
      case (Inl e)
      with d Inr g1 f1 show ?thesis by (simp add: process_single_video_try_def)
    next
      case cap: (Inr caption)
      obtain r2 w2 where sv: "send_video E w1 caption path (CHANNEL_IDS (cfg E)) 3 True = (r2, w2)"
        by (cases "send_video E w1 caption path (CHANNEL_IDS (cfg E)) 3 True")
      have g2: "grows P w1 w2"
        using send_video_grows [of P caption path w1 E "CHANNEL_IDS (cfg E)" 3 True] assms sv
        by simp
      have f2: "processed_videos w2 = processed_videos w1"
        using send_video_frame [of E w1 caption path "CHANNEL_IDS (cfg E)" 3 True] sv by simp
      show ?thesis
      proof (cases r2)
        case (Inl e)
        with d Inr cap sv grows_trans [OF g1 g2] f1 f2 show ?thesis
          by (simp add: process_single_video_try_def)
      next
        case msgs: (Inr messages)
        have g3: "grows P w2 (snd (save_processed_video E w2 i))"
          using save_processed_video_trace [of E w2 i] by (simp add: grows_def)
        have f3: "processed_videos w2 \<subseteq> processed_videos (snd (save_processed_video E w2 i))"
          using save_processed_video_trace [of E w2 i] by simp
        show ?thesis
          using d Inr cap sv msgs grows_trans [OF g1 grows_trans [OF g2 g3]] f1 f2 f3
          by (auto simp: process_single_video_try_def split: prod.splits)
      qed
    qed
  qed
qed

lemma process_single_video_step:
  assumes "\<forall>u. P (Fetch u (asc ''video_'' @ i))" and "\<forall>c. P (Api c)" and "\<forall>t. P (Sleep t)"
    and "\<forall>p. P (Unlink p)"
  shows "grows P w (snd (process_single_video E w v i)) \<and>
         processed_videos w \<subseteq> processed_videos (snd (process_single_video E w v i))"
proof -
  obtain r dp w1 where t: "process_single_video_try E w v i = ((r, dp), w1)"
    by (metis surj_pair)
  have s1: "grows P w w1" "processed_videos w \<subseteq> processed_videos w1"
    using process_single_video_try_step [OF assms, of w E v] t by simp_all
  have a: "grows P w (handle_download_failure E w1 v)"
    using grows_trans [OF s1(1) handle_download_failure_grows [of P w1 E v]] assms by simp
  have b: "grows P w (handle_posting_failure E w1 q)" for q
    using grows_trans [OF s1(1) handle_posting_failure_grows [of P w1 E q]] assms by simp
  have c: "processed_videos (handle_download_failure E w1 v) = processed_videos w1"
    by (simp add: handle_download_failure_frame)
  have d: "processed_videos (handle_posting_failure E w1 q) = processed_videos w1" for q
    by (simp add: handle_posting_failure_def cleanup_eq)
  show ?thesis
    using t s1 a b c d
    by (auto simp: process_single_video_def split: sum.splits option.splits)
qed

lemma process_videos_loop_step:
  assumes "\<forall>v\<in>set vs. video_id_of v \<notin> processed_videos w \<longrightarrow>
             (\<forall>u. P (Fetch u (asc ''video_'' @ video_id_of v)))"
    and "\<forall>c. P (Api c)" and "\<forall>t. P (Sleep t)" and "\<forall>p. P (Unlink p)"
  shows "grows P w (snd (process_videos_loop E w vs)) \<and>
         processed_videos w \<subseteq> processed_videos (snd (process_videos_loop E w vs))"
  using assms(1)
proof (induction vs arbitrary: w)
  case Nil
  show ?case by (simp add: grows_refl)
next
  case (Cons v vs)
  show ?case
  proof (cases "video_id_of v \<in> processed_videos w")
    case True
    with Cons show ?thesis by simp
  next
    case False
    obtain r w1 where p: "process_single_video E w v (video_id_of v) = (r, w1)"
      by (cases "process_single_video E w v (video_id_of v)")
    have "\<forall>u. P (Fetch u (asc ''video_'' @ video_id_of v))"
      using Cons.prems False by simp
    from process_single_video_step [OF this assms(2,3,4), of w E v] p
    have s1: "grows P w w1" "processed_videos w \<subseteq> processed_videos w1" by simp_all
    show ?thesis
    proof (cases r)
      case (Inl e)
      with p False s1 show ?thesis by simp
    next
      case (Inr u)
      have "\<forall>v\<in>set vs. video_id_of v \<notin> processed_videos w1 \<longrightarrow>
             (\<forall>u. P (Fetch u (asc ''video_'' @ video_id_of v)))"
        using Cons.prems s1(2) by auto
      from Cons.IH [OF this] have
        "grows P w1 (snd (process_videos_loop E w1 vs))"
        "processed_videos w1 \<subseteq> processed_videos (snd (process_videos_loop E w1 vs))"
        by simp_all
      with p False Inr s1 show ?thesis
        using grows_trans [of P w w1 "snd (process_videos_loop E w1 vs)"] by auto
    qed
  qed
qed

text \<open>Candidates whose identifier is in the set from the start do not count for the loop.\<close>

lemma process_videos_loop_filter:
  "S \<subseteq> processed_videos w \<Longrightarrow>
   process_videos_loop E w vs = process_videos_loop E w (filter (\<lambda>v. video_id_of v \<notin> S) vs)"
proof (induction vs arbitrary: w)
  case Nil
  show ?case by simp
next
  case (Cons v vs)
  show ?case
  proof (cases "video_id_of v \<in> processed_videos w")
    case True
    with Cons show ?thesis by simp
  next
    case False
    then have nS: "video_id_of v \<notin> S" using Cons.prems by auto
    obtain r w1 where p: "process_single_video E w v (video_id_of v) = (r, w1)"
      by (cases "process_single_video E w v (video_id_of v)")
    have "processed_videos w \<subseteq> processed_videos w1"
      using process_single_video_step [of "\<lambda>e. True" "video_id_of v" w E v] p by simp
    then have "S \<subseteq> processed_videos w1" using Cons.prems by auto
    from Cons.IH [OF this] p False nS show ?thesis
      by (simp split: sum.splits)
  qed
qed

lemma process_videos_trace:
  assumes "i \<in> processed_videos w"
  shows "\<exists>new. trace (process_videos E w) = trace w @ new \<and>
           (\<forall>u. Fetch u (asc ''video_'' @ i) \<notin> set new)"
proof -
  let ?P = "\<lambda>e. \<forall>u. e \<noteq> Fetch u (asc ''video_'' @ i)"
  have loop: "grows ?P w (snd (process_videos_loop E w vs))" for vs
  proof -
    have "\<forall>v\<in>set vs. video_id_of v \<notin> processed_videos w \<longrightarrow>
            (\<forall>u. ?P (Fetch u (asc ''video_'' @ video_id_of v)))"
      using assms by auto
    from process_videos_loop_step [of vs w ?P E, OF this] show ?thesis by simp
  qed
  have "grows ?P w (process_videos E w)"
    by (simp add: process_videos_def grows_refl loop split: sum.splits)
  from grows_trace [OF this] show ?thesis by blast
qed

text \<open>
  C2: when the identifier \<open>i\<close> is in the in-memory set at the start of a sweep, the sweep
  runs no download under the file name of \<open>i\<close>, and its loop does exactly what it does on
  the candidates with the identifiers of the set taken out: result, ledger, files and all
  calls to the outside are the same, so no fetch and no publish is made for them.
\<close>

theorem sweep_skips_processed:
  assumes "i \<in> processed_videos w"
  shows "(\<exists>new. trace (process_videos E w) = trace w @ new \<and>
            (\<forall>u. Fetch u (asc ''video_'' @ i) \<notin> set new)) \<and>
         process_videos_loop E w vs =
           process_videos_loop E w (filter (\<lambda>v. video_id_of v \<notin> processed_videos w) vs) \<and>
         process_videos_loop E w vs =
           process_videos_loop E w (filter (\<lambda>v. video_id_of v \<noteq> i) vs)"
proof (intro conjI)
  show "\<exists>new. trace (process_videos E w) = trace w @ new \<and>
            (\<forall>u. Fetch u (asc ''video_'' @ i) \<notin> set new)"
    using assms by (rule process_videos_trace)
  show "process_videos_loop E w vs =
           process_videos_loop E w (filter (\<lambda>v. video_id_of v \<notin> processed_videos w) vs)"
    by (rule process_videos_loop_filter) simp
  have "{i} \<subseteq> processed_videos w" using assms by simp
  from process_videos_loop_filter [OF this, of E vs]
  show "process_videos_loop E w vs =
           process_videos_loop E w (filter (\<lambda>v. video_id_of v \<noteq> i) vs)"
    by simp
qed

lemma video_id_of_video_1_2: "video_id_of video_1_2 = asc ''1_2''"
  by (simp add: video_id_of_def video_1_2_def str_int_def str_nat.simps asc_def)

theorem sweep_skips_processed_witness:
  "(\<exists>new. trace (process_videos env_search world_seen) = trace world_seen @ new \<and>
      (\<forall>u. Fetch u (asc ''video_'' @ asc ''1_2'') \<notin> set new)) \<and>
   process_videos_loop env_search world_seen [video_1_2] = (Inr (), world_seen) \<and>
   process_videos env_search world_seen = world_seen"
proof -
  have m: "asc ''1_2'' \<in> processed_videos world_seen"
    by (simp add: world_seen_def)
  note t = sweep_skips_processed [OF m, of env_search "[video_1_2]"]
  have "process_videos_loop env_search world_seen [video_1_2] =
          process_videos_loop env_search world_seen []"
    using t [THEN conjunct2, THEN conjunct2] by (simp add: video_id_of_video_1_2)
  then have l: "process_videos_loop env_search world_seen [video_1_2] = (Inr (), world_seen)"
    by simp
  then have "process_videos env_search world_seen = world_seen"
    by (simp add: process_videos_def env_search_def world_seen_def world0_def)
  with t [THEN conjunct1] l show ?thesis by simp
qed

text \<open>The candidate of the examples: its file name, its caption, its download.\<close>

lemma video_1_2_file:
  "asc ''downloads/'' @ asc ''video_'' @ asc ''1_2'' @ asc ''.mp4'' = video_1_2_mp4"
  by (simp add: video_1_2_mp4_def asc_def)

lemma generate_caption_1_2: "generate_caption video_1_2 = Inr caption_1_2"
  by (simp add: generate_caption_video_1_2 caption_1_2_def)

lemma truncate_caption_1_2: "truncate_text caption_1_2 MAX_CAPTION_LENGTH = caption_1_2"
  by (rule truncate_text_short) (simp add: caption_1_2_def asc_def)

lemma download_no_delivery:
  "download env_no_delivery world0 (url video_1_2) (asc ''video_'' @ asc ''1_2'') =
     (Inr video_1_2_mp4,
      world0\<lparr>download_dir := [(video_1_2_mp4, 5)],
             trace := [Fetch (url video_1_2) (asc ''video_'' @ asc ''1_2'')]\<rparr>)"
  by (simp add: download_def download_try_def env_no_delivery_def env_rate_limited_def
      write_files_def video_1_2_file world0_def)

lemma validate_video_no_delivery:
  "validate_video env_no_delivery (world0\<lparr>download_dir := [(video_1_2_mp4, 5)], trace := t\<rparr>)
     video_1_2_mp4 = Inr ()"
  by (simp add: validate_video_def env_no_delivery_def env_rate_limited_def world0_def
      video_1_2_mp4_def path_suffix_def path_name_def lower_def lower_char_def SUPPORTED_VIDEO_FORMATS_def asc_def)

lemma send_video_no_delivery:
  "send_video env_no_delivery
     (world0\<lparr>download_dir := [(video_1_2_mp4, 5)], trace := t\<rparr>)
     caption_1_2 video_1_2_mp4 (CHANNEL_IDS (cfg env_no_delivery)) 3 True =
   (Inr [],
    world0\<lparr>download_dir := [(video_1_2_mp4, 5)],
           trace := t @ [Api (SendVideo (asc ''@a'') (InputFile video_1_2_mp4) caption_1_2)]\<rparr>)"
proof -
  have c: "CHANNEL_IDS (cfg env_no_delivery) = [asc ''@a'']"
    and b: "bot env_no_delivery h r = Inl NetworkError" for h r
    by (simp_all add: env_no_delivery_def env_rate_limited_def)
  have e: "exists (world0\<lparr>download_dir := [(video_1_2_mp4, 5)], trace := t\<rparr>) video_1_2_mp4"
    by (simp add: exists_def)
  show ?thesis
    by (simp add: send_video_valid_eq [OF validate_video_no_delivery] c
        send_video_try_present [OF e] call_api_def b upload_request_def CHUNK_SIZE_def
        truncate_caption_1_2)
qed

lemma save_processed_video_no_delivery:
  "save_processed_video env_no_delivery w i =
     (Inr (), w\<lparr>ledger_file := Some ((case ledger_file w of None \<Rightarrow> [] | Some c \<Rightarrow> c) @ i @ [10]),
                processed_videos := insert i (processed_videos w)\<rparr>)"
  by (simp add: save_processed_video_def save_try_def env_no_delivery_def env_rate_limited_def)

text \<open>
  The receipts of \<open>send_video\<close> play no part in the commit: whenever it returns and the
  append succeeds, the identifier is recorded.
\<close>

lemma process_single_video_commit_ignores_receipts:
  assumes "download E w (url v) (asc ''video_'' @ i) = (Inr path, w1)"
    and "generate_caption v = Inr caption"
    and "send_video E w1 caption path (CHANNEL_IDS (cfg E)) 3 True = (Inr messages, w2)"
    and "ledger_append E (ledger_file w2) i = None"
  shows "i \<in> processed_videos (snd (process_single_video E w v i))"
proof -
  have "process_single_video_try E w v i =
          ((Inr (), Some path), snd (save_processed_video E w2 i))"
    using assms(1,2,3) save_processed_video_fst [of E w2 i]
    by (auto simp: process_single_video_try_def split: prod.splits)
  then show ?thesis
    using save_processed_video_ok [OF assms(4)] by (simp add: process_single_video_def)
qed

text \<open>
  C1 at a candidate whose only channel refuses the upload with a network error:
  \<open>send_video\<close> returns without a receipt, and the identifier is appended to the ledger
  file and inserted into the set all the same. The file stays in the download directory.
\<close>

theorem process_single_video_commits_without_delivery:
  "video_id_of video_1_2 = asc ''1_2'' \<and>
   process_single_video env_no_delivery world0 video_1_2 (asc ''1_2'') =
     (Inr (),
      \<lparr>processed_videos = {asc ''1_2''},
       ledger_file = Some (asc ''1_2'' @ [10]),
       download_dir = [(video_1_2_mp4, 5)],
       is_running = True,
       trace =
         [Fetch (asc ''https://vk.com/video1_2'') (asc ''video_'' @ asc ''1_2''),
          Api (SendVideo (asc ''@a'') (InputFile video_1_2_mp4) caption_1_2)]\<rparr>) \<and>
   receipts env_no_delivery []
     [Fetch (asc ''https://vk.com/video1_2'') (asc ''video_'' @ asc ''1_2''),
      Api (SendVideo (asc ''@a'') (InputFile video_1_2_mp4) caption_1_2)] = []"
proof (intro conjI)
  show "video_id_of video_1_2 = asc ''1_2''" by (rule video_id_of_video_1_2)
  have u: "url video_1_2 = asc ''https://vk.com/video1_2''"
    by (simp add: video_1_2_def)
  have "process_single_video_try env_no_delivery world0 video_1_2 (asc ''1_2'') =
          ((Inr (), Some video_1_2_mp4),
           world0\<lparr>download_dir := [(video_1_2_mp4, 5)],
             trace := [Fetch (url video_1_2) (asc ''video_'' @ asc ''1_2''),
                       Api (SendVideo (asc ''@a'') (InputFile video_1_2_mp4) caption_1_2)],
             ledger_file := Some (asc ''1_2'' @ [10]),
             processed_videos := {asc ''1_2''}\<rparr>)"
    by (simp add: process_single_video_try_def download_no_delivery generate_caption_1_2
        send_video_no_delivery save_processed_video_no_delivery)
      (simp add: world0_def)
  then show "process_single_video env_no_delivery world0 video_1_2 (asc ''1_2'') =
     (Inr (),
      \<lparr>processed_videos = {asc ''1_2''},
       ledger_file = Some (asc ''1_2'' @ [10]),
       download_dir = [(video_1_2_mp4, 5)],
       is_running = True,
       trace =
         [Fetch (asc ''https://vk.com/video1_2'') (asc ''video_'' @ asc ''1_2''),
          Api (SendVideo (asc ''@a'') (InputFile video_1_2_mp4) caption_1_2)]\<rparr>)"
    by (simp add: process_single_video_def u) (simp add: world0_def)
  show "receipts env_no_delivery []
     [Fetch (asc ''https://vk.com/video1_2'') (asc ''video_'' @ asc ''1_2''),
      Api (SendVideo (asc ''@a'') (InputFile video_1_2_mp4) caption_1_2)] = []"
    by (simp add: env_no_delivery_def)
qed

text \<open>
  A file over the limit: \<open>download\<close> raises, and the file it has just written is still in
  the download directory; the handler of the pipeline only sends the notice.
\<close>

lemma download_oversize:
  assumes "ydl E (trace w) u f = (written, Inr path)"
    and "map_of (write_files written (download_dir w)) path = Some size'"
    and "MAX_FILE_SIZE_MB (cfg E) * 1024 * 1024 < size'"
  shows "download E w u f =
           (Inl VideoDownloadError,
            w\<lparr>download_dir := write_files written (download_dir w),
              trace := trace w @ [Fetch u f]\<rparr>)"
  using assms by (simp add: download_def download_try_def)

lemma process_single_video_oversize:
  assumes "ydl E (trace w) (url v) (asc ''video_'' @ i) = (written, Inr path)"
    and "map_of (write_files written (download_dir w)) path = Some size'"
    and "MAX_FILE_SIZE_MB (cfg E) * 1024 * 1024 < size'"
  shows "fst (process_single_video E w v i) = Inr () \<and>
         processed_videos (snd (process_single_video E w v i)) = processed_videos w \<and>
         ledger_file (snd (process_single_video E w v i)) = ledger_file w \<and>
         map_of (download_dir (snd (process_single_video E w v i))) path = Some size'"
  using assms
  by (simp add: process_single_video_def process_single_video_try_def
      download_oversize [OF assms] handle_download_failure_frame)

lemma download_env_oversize:
  "download env_oversize world0 (url video_1_2) (asc ''video_'' @ asc ''1_2'') =
     (Inl VideoDownloadError,
      world0\<lparr>download_dir := [(video_1_2_mp4, 80 * 1024 * 1024)],
             trace := [Fetch (url video_1_2) (asc ''video_'' @ asc ''1_2'')]\<rparr>)"
proof -
  have y: "ydl env_oversize (trace world0) (url video_1_2) (asc ''video_'' @ asc ''1_2'') =
        ([(video_1_2_mp4, 80 * 1024 * 1024)], Inr video_1_2_mp4)"
    by (simp add: env_oversize_def env_rate_limited_def video_1_2_file)
  have m: "MAX_FILE_SIZE_MB (cfg env_oversize) * 1024 * 1024 < 80 * 1024 * 1024"
    by (simp add: env_oversize_def env_rate_limited_def)
  have "download env_oversize world0 (url video_1_2) (asc ''video_'' @ asc ''1_2'') =
     (Inl VideoDownloadError,
      world0\<lparr>download_dir := write_files [(video_1_2_mp4, 80 * 1024 * 1024)] (download_dir world0),
             trace := trace world0 @ [Fetch (url video_1_2) (asc ''video_'' @ asc ''1_2'')]\<rparr>)"
    by (rule download_oversize [OF y _ m]) (simp add: write_files_def)
  then show ?thesis by (simp add: write_files_def world0_def)
qed

lemma notice_video_1_2:
  "handle_download_failure env_oversize w video_1_2 =
     snd (send_text env_oversize w notice_1_2 [asc ''@a''] 3)"
  by (simp add: handle_download_failure_def video_1_2_def notice_1_2_def env_oversize_def
      env_rate_limited_def)

lemma truncate_notice_1_2: "truncate_text notice_1_2 MAX_CAPTION_LENGTH = notice_1_2"
  by (rule truncate_text_short) (simp add: notice_1_2_def asc_def)

lemma send_text_env_oversize:
  "send_text env_oversize w notice_1_2 [asc ''@a''] 3 =
     (Inr [7], w\<lparr>trace := trace w @ [Api (SendMessage (asc ''@a'') notice_1_2)]\<rparr>)"
proof -
  have b: "bot env_oversize h r = Inr 7" for h r
    by (simp add: env_oversize_def env_rate_limited_def)
  show ?thesis
    by (simp add: send_text_def numeral_3_eq_3 send_text_attempts_sent [OF b]
        truncate_notice_1_2)
qed

text \<open>
  C3 at a download of 80 megabytes against the limit of 50: the notice goes out and the
  identifier stays out of the ledger, but the file of 83886080 bytes is still in the
  download directory when the pipeline is done with the candidate.
\<close>

theorem process_single_video_oversize_file_kept:
  "MAX_FILE_SIZE_MB (cfg env_oversize) * 1024 * 1024 < 80 * 1024 * 1024 \<and>
   process_single_video env_oversize world0 video_1_2 (asc ''1_2'') =
     (Inr (),
      \<lparr>processed_videos = {},
       ledger_file = None,
       download_dir = [(video_1_2_mp4, 80 * 1024 * 1024)],
       is_running = True,
       trace =
         [Fetch (asc ''https://vk.com/video1_2'') (asc ''video_'' @ asc ''1_2''),
          Api (SendMessage (asc ''@a'') notice_1_2)]\<rparr>) \<and>
   exists (snd (process_single_video env_oversize world0 video_1_2 (asc ''1_2''))) video_1_2_mp4"
proof -
  have m: "MAX_FILE_SIZE_MB (cfg env_oversize) * 1024 * 1024 < 80 * 1024 * 1024"
    by (simp add: env_oversize_def env_rate_limited_def)
  have u: "url video_1_2 = asc ''https://vk.com/video1_2''"
    by (simp add: video_1_2_def)
  have p: "process_single_video env_oversize world0 video_1_2 (asc ''1_2'') =
     (Inr (),
      \<lparr>processed_videos = {},
       ledger_file = None,
       download_dir = [(video_1_2_mp4, 80 * 1024 * 1024)],
       is_running = True,
       trace =
         [Fetch (asc ''https://vk.com/video1_2'') (asc ''video_'' @ asc ''1_2''),
          Api (SendMessage (asc ''@a'') notice_1_2)]\<rparr>)"
    by (simp add: process_single_video_def process_single_video_try_def download_env_oversize
        notice_video_1_2 send_text_env_oversize)
      (simp add: world0_def u)
  have "exists (snd (process_single_video env_oversize world0 video_1_2 (asc ''1_2''))) video_1_2_mp4"
    unfolding p by (simp add: exists_def)
  with m p show ?thesis by simp
qed

text \<open>
  A path that \<open>download\<close> returns names a file within the limit, so the validation of
  \<open>send_video\<close> does not raise \<open>ContentTooLargeError\<close> for it; no other poster error is
  raised anywhere. The \<open>try\<close> block of the pipeline therefore never leaves with a poster
  error, and \<open>_handle_posting_failure\<close> never runs.
\<close>

lemma download_raises: "fst (download E w u f) = Inl e \<Longrightarrow> e = VideoDownloadError"
  by (auto simp: download_def split: prod.splits sum.splits option.splits if_splits)

lemma download_within_limit:
  assumes "download E w u f = (Inr p, w1)"
  shows "\<exists>n. map_of (download_dir w1) p = Some n \<and> n \<le> MAX_FILE_SIZE_MB (cfg E) * 1024 * 1024"
  using assms
  by (auto simp: download_def download_try_def Let_def
      split: prod.splits sum.splits option.splits if_splits)

lemma generate_caption_raises:
  "generate_caption v = Inl e \<Longrightarrow> e = AttributeError \<or> e = KeyError"
  by (auto simp: generate_caption_def split: pyval.splits sum.splits)

lemma process_single_video_try_no_poster_error:
  assumes "process_single_video_try E w v i = ((Inl e, dp), w')"
  shows "\<not> is_TelegramPosterError e"
proof -
  obtain r1 w1 where d: "download E w (url v) (asc ''video_'' @ i) = (r1, w1)"
    by (cases "download E w (url v) (asc ''video_'' @ i)")
  show ?thesis
  proof (cases r1)
    case (Inl e1)
    with d have "e1 = VideoDownloadError"
      using download_raises [of E w "url v" "asc ''video_'' @ i" e1] by simp
    with d Inl assms show ?thesis by (simp add: process_single_video_try_def)
  next
    case (Inr p)
    from download_within_limit [OF d [unfolded Inr]] obtain n where
      n: "map_of (download_dir w1) p = Some n" "n \<le> MAX_FILE_SIZE_MB (cfg E) * 1024 * 1024"
      by blast
    show ?thesis
    proof (cases "generate_caption v")
      case (Inl e2)
      with d Inr assms generate_caption_raises [OF Inl] show ?thesis
        by (auto simp: process_single_video_try_def)
    next
      case cap: (Inr caption)
      have v: "validate_video E w1 p \<noteq> Inl ContentTooLargeError"
        using n by (simp add: validate_video_def)
      show ?thesis
      proof (cases "validate_video E w1 p")
        case (Inl e3)
        then have "e3 = ValueError"
          using n v by (auto simp: validate_video_def split: if_splits)
        with d Inr cap Inl assms show ?thesis
          by (auto simp: process_single_video_try_def send_video_invalid)
      next
        case ok: (Inr u)
        let ?w2 = "snd (send_video_channels E caption p True (CHANNEL_IDS (cfg E)) [] w1)"
        have "process_single_video_try E w v i =
                ((fst (save_processed_video E ?w2 i), Some p), snd (save_processed_video E ?w2 i))"
          using d Inr cap ok
          by (simp add: process_single_video_try_def send_video_valid split: prod.splits)
        with assms have "fst (save_processed_video E ?w2 i) = Inl e" by simp
        then show ?thesis by (simp add: save_processed_video_fst)
      qed
    qed
  qed
qed




lemma process_single_video_without_posting_handler:
  "process_single_video E w v i =
     (case process_single_video_try E w v i of
        ((Inr u, dp), w1) \<Rightarrow> (Inr (), w1)
      | ((Inl e, dp), w1) \<Rightarrow>
          if is_VideoDownloadError e then (Inr (), handle_download_failure E w1 v)
          else (Inl e, w1))"
proof -
  obtain r dp w1 where t: "process_single_video_try E w v i = ((r, dp), w1)"
    by (metis surj_pair)
  show ?thesis
  proof (cases r)
    case (Inl e)
    with t process_single_video_try_no_poster_error [of E w v i e dp w1] show ?thesis
      by (simp add: process_single_video_def)
  next
    case (Inr u)
    with t show ?thesis by (simp add: process_single_video_def)
  qed
qed

text \<open>The candidate of the examples when another item's file is in the download directory.\<close>

lemma video_1_2_not_3_4: "video_1_2_mp4 \<noteq> video_3_4_mp4"
  by (simp add: video_1_2_mp4_def video_3_4_mp4_def asc_def)

lemma download_other_file:
  "download env_no_delivery world_other_file (url video_1_2) (asc ''video_'' @ asc ''1_2'') =
     (Inr video_1_2_mp4,
      world0\<lparr>download_dir := [(video_1_2_mp4, 5), (video_3_4_mp4, 6)],
             trace := [Fetch (url video_1_2) (asc ''video_'' @ asc ''1_2'')]\<rparr>)"
  using video_1_2_not_3_4
  by (simp add: download_def download_try_def env_no_delivery_def env_rate_limited_def
      write_files_def video_1_2_file world_other_file_def world0_def)

lemma validate_video_other_file:
  "validate_video env_no_delivery
     (world0\<lparr>download_dir := [(video_1_2_mp4, 5), (video_3_4_mp4, 6)], trace := t\<rparr>)
     video_1_2_mp4 = Inr ()"
  by (simp add: validate_video_def env_no_delivery_def env_rate_limited_def world0_def
      video_1_2_mp4_def path_suffix_def path_name_def lower_def lower_char_def
      SUPPORTED_VIDEO_FORMATS_def asc_def)

lemma send_video_other_file:
  "send_video env_no_delivery
     (world0\<lparr>download_dir := [(video_1_2_mp4, 5), (video_3_4_mp4, 6)], trace := t\<rparr>)
     caption_1_2 video_1_2_mp4 (CHANNEL_IDS (cfg env_no_delivery)) 3 True =
   (Inr [],
    world0\<lparr>download_dir := [(video_1_2_mp4, 5), (video_3_4_mp4, 6)],
           trace := t @ [Api (SendVideo (asc ''@a'') (InputFile video_1_2_mp4) caption_1_2)]\<rparr>)"
proof -
  have c: "CHANNEL_IDS (cfg env_no_delivery) = [asc ''@a'']"
    and b: "bot env_no_delivery h r = Inl NetworkError" for h r
    by (simp_all add: env_no_delivery_def env_rate_limited_def)
  have e: "exists (world0\<lparr>download_dir := [(video_1_2_mp4, 5), (video_3_4_mp4, 6)], trace := t\<rparr>)
             video_1_2_mp4"
    by (simp add: exists_def)
  show ?thesis
    by (simp add: send_video_valid_eq [OF validate_video_other_file] c
        send_video_try_present [OF e] call_api_def b upload_request_def CHUNK_SIZE_def
        truncate_caption_1_2)
qed

text \<open>
  C9 at a candidate whose only channel refuses the upload, with the deletion flag set and
  another item's file in the download directory: the other file is left alone, but the
  candidate's own file is not removed either, and its identifier is committed.
\<close>

theorem process_single_video_publish_failure_keeps_artifact:
  "DELETE_LOCAL_COPY (cfg env_no_delivery) \<and>
   process_single_video env_no_delivery world_other_file video_1_2 (asc ''1_2'') =
     (Inr (),
      \<lparr>processed_videos = {asc ''1_2''},
       ledger_file = Some (asc ''1_2'' @ [10]),
       download_dir = [(video_1_2_mp4, 5), (video_3_4_mp4, 6)],
       is_running = True,
       trace =
         [Fetch (asc ''https://vk.com/video1_2'') (asc ''video_'' @ asc ''1_2''),
          Api (SendVideo (asc ''@a'') (InputFile video_1_2_mp4) caption_1_2)]\<rparr>) \<and>
   bot env_no_delivery [Fetch (asc ''https://vk.com/video1_2'') (asc ''video_'' @ asc ''1_2'')]
     (SendVideo (asc ''@a'') (InputFile video_1_2_mp4) caption_1_2) = Inl NetworkError"
proof (intro conjI)
  show "DELETE_LOCAL_COPY (cfg env_no_delivery)"
    by (simp add: env_no_delivery_def env_rate_limited_def)
  have u: "url video_1_2 = asc ''https://vk.com/video1_2''"
    by (simp add: video_1_2_def)
  have "process_single_video_try env_no_delivery world_other_file video_1_2 (asc ''1_2'') =
          ((Inr (), Some video_1_2_mp4),
           world0\<lparr>download_dir := [(video_1_2_mp4, 5), (video_3_4_mp4, 6)],
             trace := [Fetch (url video_1_2) (asc ''video_'' @ asc ''1_2''),
                       Api (SendVideo (asc ''@a'') (InputFile video_1_2_mp4) caption_1_2)],
             ledger_file := Some (asc ''1_2'' @ [10]),
             processed_videos := {asc ''1_2''}\<rparr>)"
    by (simp add: process_single_video_try_def download_other_file generate_caption_1_2
        send_video_other_file save_processed_video_no_delivery)
      (simp add: world0_def)
  then show "process_single_video env_no_delivery world_other_file video_1_2 (asc ''1_2'') =
     (Inr (),
      \<lparr>processed_videos = {asc ''1_2''},
       ledger_file = Some (asc ''1_2'' @ [10]),
       download_dir = [(video_1_2_mp4, 5), (video_3_4_mp4, 6)],
       is_running = True,
       trace =
         [Fetch (asc ''https://vk.com/video1_2'') (asc ''video_'' @ asc ''1_2''),
          Api (SendVideo (asc ''@a'') (InputFile video_1_2_mp4) caption_1_2)]\<rparr>)"
    by (simp add: process_single_video_def u) (simp add: world0_def)
  show "bot env_no_delivery [Fetch (asc ''https://vk.com/video1_2'') (asc ''video_'' @ asc ''1_2'')]
     (SendVideo (asc ''@a'') (InputFile video_1_2_mp4) caption_1_2) = Inl NetworkError"
    by (simp add: env_no_delivery_def)
qed

end
